theory Spec2Isabelle
  imports Main "HOL-Library.Word" "HOL-Library.Multiset"
begin

section \<open>Values\<close>

text \<open>
  A JavaScript string is a sequence of UTF-16 code units; \<open>length\<close>, \<open>substring\<close> and
  \<open>trim\<close> count and inspect code units.  Identifiers (UUIDs, column and metadata keys)
  are plain ASCII and kept as \<open>string\<close>.
\<close>

type_synonym jsstring = "16 word list"

definition js :: "string \<Rightarrow> jsstring" where
  "js s = map of_char s"

text \<open>The JavaScript values a caller may put into the \<open>filters\<close> object.\<close>

datatype jsval = JUndefined | JNull | JBool bool | JNum int | JStr jsstring

text \<open>
  The values that can be bound to a statement parameter and stored in a column:
  NULL, an integer or a text.  Column affinity conversions are not modelled: a value is
  stored as it was bound.
\<close>

datatype sqlval = SNull | SInt int | SText jsstring

text \<open>Exceptions raised by the storage engine.\<close>

datatype exn = NoSuchTable | PrimaryKeyViolation | ForeignKeyViolation

subsection \<open>String primitives\<close>

text \<open>The code units removed by \<open>String.prototype.trim\<close> and skipped by \<open>parseInt\<close>.\<close>

definition js_whitespace :: "16 word list" where
  "js_whitespace =
     [0x0009, 0x000A, 0x000B, 0x000C, 0x000D, 0x0020, 0x00A0, 0x1680,
      0x2000, 0x2001, 0x2002, 0x2003, 0x2004, 0x2005, 0x2006, 0x2007, 0x2008, 0x2009, 0x200A,
      0x2028, 0x2029, 0x202F, 0x205F, 0x3000, 0xFEFF]"

definition is_ws :: "16 word \<Rightarrow> bool" where
  "is_ws c = (c \<in> set js_whitespace)"

definition trim :: "jsstring \<Rightarrow> jsstring" where
  "trim s = rev (dropWhile is_ws (rev (dropWhile is_ws s)))"

text \<open>\<open>s.substring(0, n)\<close> for a non-negative \<open>n\<close>.\<close>

definition substring0 :: "nat \<Rightarrow> jsstring \<Rightarrow> jsstring" where
  "substring0 n s = take n s"

text \<open>\<open>Number.prototype.toString\<close> on an integer that prints in plain decimal.\<close>

definition digit_char :: "nat \<Rightarrow> 16 word" where
  "digit_char d = of_nat (48 + d)"

fun nat_digits :: "nat \<Rightarrow> jsstring" where
  "nat_digits n = (if n < 10 then [digit_char n] else nat_digits (n div 10) @ [digit_char (n mod 10)])"

declare nat_digits.simps [simp del]

definition number_toString :: "int \<Rightarrow> jsstring" where
  "number_toString n = (if n < 0 then 0x2D # nat_digits (nat (- n)) else nat_digits (nat n))"

text \<open>
  \<open>parseInt(s, 10)\<close>: leading white space is skipped, one sign is read, then the longest
  run of decimal digits; with no digit the result is NaN, here \<open>None\<close>.
\<close>

definition is_digit :: "16 word \<Rightarrow> bool" where
  "is_digit c = (0x30 \<le> c \<and> c \<le> 0x39)"

definition digits_value :: "jsstring \<Rightarrow> nat" where
  "digits_value ds = fold (\<lambda>c acc. acc * 10 + (unat c - 48)) ds 0"

definition parseInt10 :: "jsstring \<Rightarrow> int option" where
  "parseInt10 s =
     (let t = dropWhile is_ws s;
          neg = (t \<noteq> [] \<and> hd t = 0x2D);
          u = (if t \<noteq> [] \<and> (hd t = 0x2D \<or> hd t = 0x2B) then tl t else t);
          ds = takeWhile is_digit u
      in if ds = [] then None
         else Some (if neg then - int (digits_value ds) else int (digits_value ds)))"

text \<open>\<open>a > b\<close> on numbers, where \<open>None\<close> is NaN: a comparison with NaN is false.\<close>

definition js_gt :: "int \<Rightarrow> int option \<Rightarrow> bool" where
  "js_gt a b = (case b of None \<Rightarrow> False | Some n \<Rightarrow> a > n)"

section \<open>The database\<close>

text \<open>
  The three tables of \<open>001_initial_schema.js\<close>.  Rows are kept in insertion (rowid) order.
\<close>

record conv_row =
  conv_id :: string
  screenshot_data_url :: "string option"
  screenshot_hash :: "string option"
  title :: sqlval
  created_at :: int
  updated_at :: int
  message_count :: int
  starred :: sqlval
  archived :: sqlval

record msg_row =
  msg_id :: string
  conversation_id :: string
  role :: jsstring
  content :: jsstring
  timestamp :: int
  error :: int

record meta_row =
  meta_key :: string
  meta_value :: jsstring
  meta_updated_at :: int

text \<open>
  The state the services act on: the open database (the \<open>foreign_keys\<close> pragma, whether
  the tables exist, and their rows) together with the environment the code reads:
  \<open>randomUUID()\<close> and \<open>Date.now()\<close> return the next value of a tape, and
  \<open>sha256_hex\<close> stands for the digest of the \<open>crypto\<close> module.  The three tables are
  created together by the one migration, so one flag records whether they exist.
\<close>

record world =
  foreign_keys :: bool
  has_schema :: bool
  conversations :: "conv_row list"
  messages :: "msg_row list"
  metadata :: "meta_row list"
  uuid_src :: "nat \<Rightarrow> string"
  uuid_pos :: nat
  clock :: "nat \<Rightarrow> int"
  clock_pos :: nat
  sha256_hex :: "string \<Rightarrow> string"

definition randomUUID :: "world \<Rightarrow> string \<times> world" where
  "randomUUID w = (uuid_src w (uuid_pos w), w\<lparr>uuid_pos := Suc (uuid_pos w)\<rparr>)"

definition date_now :: "world \<Rightarrow> int \<times> world" where
  "date_now w = (clock w (clock_pos w), w\<lparr>clock_pos := Suc (clock_pos w)\<rparr>)"

subsection \<open>Statements\<close>

text \<open>
  What the engine does for each statement the services prepare.  Preparing a statement
  on a missing table raises; an insert checks the primary key and, with the
  \<open>foreign_keys\<close> pragma on, the parent row; a delete cascades to the child rows when
  the pragma is on.  \<open>ORDER BY\<close> is a stable sort of the rows in rowid order, so rows
  with equal keys come out in insertion order.
\<close>

definition sql_insert_conversation :: "conv_row \<Rightarrow> world \<Rightarrow> (exn + unit) \<times> world" where
  "sql_insert_conversation r w =
     (if \<not> has_schema w then (Inl NoSuchTable, w)
      else if conv_id r \<in> set (map conv_id (conversations w)) then (Inl PrimaryKeyViolation, w)
      else (Inr (), w\<lparr>conversations := conversations w @ [r]\<rparr>))"

definition sql_insert_message :: "msg_row \<Rightarrow> world \<Rightarrow> (exn + unit) \<times> world" where
  "sql_insert_message r w =
     (if \<not> has_schema w then (Inl NoSuchTable, w)
      else if msg_id r \<in> set (map msg_id (messages w)) then (Inl PrimaryKeyViolation, w)
      else if foreign_keys w \<and> conversation_id r \<notin> set (map conv_id (conversations w))
        then (Inl ForeignKeyViolation, w)
      else (Inr (), w\<lparr>messages := messages w @ [r]\<rparr>))"

definition sql_update_conversations :: "string \<Rightarrow> (conv_row \<Rightarrow> conv_row) \<Rightarrow> world \<Rightarrow> world" where
  "sql_update_conversations cid f w =
     w\<lparr>conversations := map (\<lambda>c. if conv_id c = cid then f c else c) (conversations w)\<rparr>"

definition sql_delete_conversation :: "string \<Rightarrow> world \<Rightarrow> world" where
  "sql_delete_conversation cid w =
     w\<lparr>conversations := filter (\<lambda>c. conv_id c \<noteq> cid) (conversations w),
       messages := (if foreign_keys w
                    then filter (\<lambda>m. conversation_id m \<noteq> cid) (messages w)
                    else messages w)\<rparr>"

definition sql_limit_offset :: "int \<Rightarrow> int \<Rightarrow> 'a list \<Rightarrow> 'a list" where
  "sql_limit_offset limit offset xs =
     (let ys = drop (nat offset) xs in if limit < 0 then ys else take (nat limit) ys)"

text \<open>
  \<open>SELECT content FROM messages WHERE conversation_id = ? AND role = ?
  ORDER BY timestamp ASC LIMIT 1\<close>, NULL when there is no such row.
\<close>

definition first_content :: "jsstring \<Rightarrow> string \<Rightarrow> msg_row list \<Rightarrow> jsstring option" where
  "first_content r cid ms =
     (case sort_key timestamp (filter (\<lambda>m. conversation_id m = cid \<and> role m = r) ms) of
        [] \<Rightarrow> None
      | m # _ \<Rightarrow> Some (content m))"

section \<open>ConversationService\<close>

record created =
  cr_id :: string
  cr_created_at :: int

record saved =
  sv_id :: string
  sv_timestamp :: int

record filters =
  f_archived :: jsval
  f_starred :: jsval

record summary =
  s_id :: string
  s_created_at :: int
  s_updated_at :: int
  s_message_count :: int
  s_starred :: sqlval
  s_archived :: sqlval
  s_title :: jsstring
  s_preview :: jsstring

record message_view =
  v_id :: string
  v_prompt :: "jsstring option"
  v_answer :: "jsstring option"
  v_role :: jsstring
  v_content :: jsstring
  v_timestamp :: int
  v_error :: bool

record item =
  prompt :: jsstring
  answer :: jsstring
  item_error :: bool

definition calculateHash :: "string \<Rightarrow> world \<Rightarrow> string" where
  "calculateHash dataUrl w = sha256_hex w dataUrl"

text \<open>A string option is truthy when it is a non-empty string.\<close>

definition truthy :: "'a list option \<Rightarrow> bool" where
  "truthy s = (case s of None \<Rightarrow> False | Some x \<Rightarrow> x \<noteq> [])"

definition createConversation :: "string option \<Rightarrow> world \<Rightarrow> (exn + created) \<times> world" where
  "createConversation screenshotDataUrl w =
     (let (id, w1) = randomUUID w;
          (now, w2) = date_now w1;
          hash = (if truthy screenshotDataUrl then Some (calculateHash (the screenshotDataUrl) w2) else None);
          row = \<lparr>conv_id = id,
                 screenshot_data_url = (if truthy screenshotDataUrl then screenshotDataUrl else None),
                 screenshot_hash = hash, title = SNull, created_at = now, updated_at = now,
                 message_count = 0, starred = SInt 0, archived = SInt 0\<rparr>
      in case sql_insert_conversation row w2 of
           (Inl e, w3) \<Rightarrow> (Inl e, w3)
         | (Inr _, w3) \<Rightarrow> (Inr \<lparr>cr_id = id, cr_created_at = now\<rparr>, w3))"

definition updateConversationTimestamp :: "string \<Rightarrow> world \<Rightarrow> (exn + unit) \<times> world" where
  "updateConversationTimestamp conversationId w =
     (if \<not> has_schema w then (Inl NoSuchTable, w)
      else let (now, w1) = date_now w
           in (Inr (), sql_update_conversations conversationId (\<lambda>c. c\<lparr>updated_at := now\<rparr>) w1))"

definition incrementMessageCount :: "string \<Rightarrow> world \<Rightarrow> (exn + unit) \<times> world" where
  "incrementMessageCount conversationId w =
     (if \<not> has_schema w then (Inl NoSuchTable, w)
      else (Inr (), sql_update_conversations conversationId
                      (\<lambda>c. c\<lparr>message_count := message_count c + 1\<rparr>) w))"

definition saveMessage ::
  "string \<Rightarrow> jsstring \<Rightarrow> jsstring \<Rightarrow> bool \<Rightarrow> world \<Rightarrow> (exn + saved) \<times> world" where
  "saveMessage conversationId r c err w =
     (let (id, w1) = randomUUID w;
          (ts, w2) = date_now w1;
          row = \<lparr>msg_id = id, conversation_id = conversationId, role = r, content = c,
                 timestamp = ts, error = (if err then 1 else 0)\<rparr>
      in case sql_insert_message row w2 of
           (Inl e, w3) \<Rightarrow> (Inl e, w3)
         | (Inr _, w3) \<Rightarrow>
             (case updateConversationTimestamp conversationId w3 of
                (Inl e, w4) \<Rightarrow> (Inl e, w4)
              | (Inr _, w4) \<Rightarrow>
                  (case incrementMessageCount conversationId w4 of
                     (Inl e, w5) \<Rightarrow> (Inl e, w5)
                   | (Inr _, w5) \<Rightarrow> (Inr \<lparr>sv_id = id, sv_timestamp = ts\<rparr>, w5))))"

definition generateTitle :: "jsstring option \<Rightarrow> jsstring" where
  "generateTitle firstPrompt =
     (if \<not> truthy firstPrompt then js ''Untitled Conversation''
      else let t = substring0 50 (trim (the firstPrompt))
           in if length t < length (trim (the firstPrompt)) then t @ js ''...'' else t)"

text \<open>The \<open>WHERE\<close> clause built from the filters.\<close>

definition whereClause :: "filters \<Rightarrow> conv_row \<Rightarrow> bool" where
  "whereClause f c =
     ((if f_archived f = JBool True then archived c = SInt 1
       else if f_archived f = JBool False then archived c = SInt 0
       else archived c = SInt 0)
      \<and> (if f_starred f = JBool True then starred c = SInt 1 else True))"

definition summarize :: "msg_row list \<Rightarrow> conv_row \<Rightarrow> summary" where
  "summarize ms c =
     (let first_prompt = first_content (js ''user'') (conv_id c) ms;
          first_answer = first_content (js ''assistant'') (conv_id c) ms
      in \<lparr>s_id = conv_id c, s_created_at = created_at c, s_updated_at = updated_at c,
          s_message_count = message_count c, s_starred = starred c, s_archived = archived c,
          s_title = generateTitle (if truthy first_prompt then first_prompt else Some (js ''Untitled'')),
          s_preview = (if truthy first_answer then substring0 100 (the first_answer) else [])\<rparr>)"

definition getAllConversations :: "int \<Rightarrow> int \<Rightarrow> filters \<Rightarrow> world \<Rightarrow> exn + summary list" where
  "getAllConversations limit offset f w =
     (if \<not> has_schema w then Inl NoSuchTable
      else Inr (map (summarize (messages w))
                  (sql_limit_offset limit offset
                     (sort_key (\<lambda>c. - updated_at c) (filter (whereClause f) (conversations w))))))"

definition getConversation :: "string \<Rightarrow> world \<Rightarrow> exn + conv_row option" where
  "getConversation conversationId w =
     (if \<not> has_schema w then Inl NoSuchTable
      else Inr (find (\<lambda>c. conv_id c = conversationId) (conversations w)))"

definition normalize :: "msg_row \<Rightarrow> message_view" where
  "normalize msg =
     \<lparr>v_id = msg_id msg,
      v_prompt = (if role msg = js ''user'' then Some (content msg) else None),
      v_answer = (if role msg = js ''assistant'' then Some (content msg) else None),
      v_role = role msg, v_content = content msg, v_timestamp = timestamp msg,
      v_error = (error msg = 1)\<rparr>"

definition getConversationWithMessages ::
  "string \<Rightarrow> world \<Rightarrow> exn + (conv_row \<times> message_view list) option" where
  "getConversationWithMessages conversationId w =
     (case getConversation conversationId w of
        Inl e \<Rightarrow> Inl e
      | Inr None \<Rightarrow> Inr None
      | Inr (Some conversation) \<Rightarrow>
          Inr (Some (conversation,
                     map normalize
                       (sort_key timestamp
                          (filter (\<lambda>m. conversation_id m = conversationId) (messages w))))))"

text \<open>
  \<open>updateConversation\<close>: the \<open>updates\<close> object is its list of entries in key order; the
  loop collects the assignments for the allowed keys, and the statement applies them.
\<close>

definition allowed :: "string list" where
  "allowed = [''title'', ''starred'', ''archived'']"

definition assign :: "string \<times> sqlval \<Rightarrow> conv_row \<Rightarrow> conv_row" where
  "assign kv c =
     (if fst kv = ''title'' then c\<lparr>title := snd kv\<rparr>
      else if fst kv = ''starred'' then c\<lparr>starred := snd kv\<rparr>
      else if fst kv = ''archived'' then c\<lparr>archived := snd kv\<rparr>
      else c)"

definition updateConversation ::
  "string \<Rightarrow> (string \<times> sqlval) list \<Rightarrow> world \<Rightarrow> (exn + unit) \<times> world" where
  "updateConversation conversationId updates w =
     (let sets = filter (\<lambda>kv. fst kv \<in> set allowed) updates
      in if sets = [] then (Inr (), w)
         else let (now, w1) = date_now w
              in if \<not> has_schema w1 then (Inl NoSuchTable, w1)
                 else (Inr (), sql_update_conversations conversationId
                                 (\<lambda>c. (fold assign sets c)\<lparr>updated_at := now\<rparr>) w1))"

text \<open>The value a column holds after the statement: the one given for it, else the old one.\<close>

definition updated_value :: "(string \<times> sqlval) list \<Rightarrow> string \<Rightarrow> sqlval \<Rightarrow> sqlval" where
  "updated_value updates k old = (case map_of updates k of Some v \<Rightarrow> v | None \<Rightarrow> old)"

definition deleteConversation :: "string \<Rightarrow> world \<Rightarrow> (exn + unit) \<times> world" where
  "deleteConversation conversationId w =
     (if \<not> has_schema w then (Inl NoSuchTable, w)
      else (Inr (), sql_delete_conversation conversationId w))"

fun saveItems :: "string \<Rightarrow> item list \<Rightarrow> world \<Rightarrow> (exn + unit) \<times> world" where
  "saveItems cid [] w = (Inr (), w)"
| "saveItems cid (it # its) w =
     (case saveMessage cid (js ''user'') (prompt it) False w of
        (Inl e, w1) \<Rightarrow> (Inl e, w1)
      | (Inr _, w1) \<Rightarrow>
          (case saveMessage cid (js ''assistant'') (answer it) (item_error it) w1 of
             (Inl e, w2) \<Rightarrow> (Inl e, w2)
           | (Inr _, w2) \<Rightarrow> saveItems cid its w2))"

definition saveCompleteConversation ::
  "string option \<Rightarrow> item list \<Rightarrow> world \<Rightarrow> (exn + created) \<times> world" where
  "saveCompleteConversation screenshotDataUrl conversation w =
     (case createConversation (if truthy screenshotDataUrl then screenshotDataUrl else None) w of
        (Inl e, w1) \<Rightarrow> (Inl e, w1)
      | (Inr conversationData, w1) \<Rightarrow>
          (case saveItems (cr_id conversationData) conversation w1 of
             (Inl e, w2) \<Rightarrow> (Inl e, w2)
           | (Inr _, w2) \<Rightarrow> (Inr conversationData, w2)))"

section \<open>Callers\<close>

text \<open>
  A caller of the service issues calls one after the other; a call that raises leaves the
  state as it was when the exception was thrown.  \<open>saveMessages\<close> is a run of
  \<open>saveMessage\<close> calls against one conversation that stops at the first exception.
\<close>

datatype call =
    CreateConversation "string option"
  | SaveMessage string jsstring jsstring bool
  | UpdateConversation string "(string \<times> sqlval) list"
  | DeleteConversation string
  | SaveCompleteConversation "string option" "item list"

fun perform :: "call \<Rightarrow> world \<Rightarrow> world" where
  "perform (CreateConversation s) w = snd (createConversation s w)"
| "perform (SaveMessage cid r c e) w = snd (saveMessage cid r c e w)"
| "perform (UpdateConversation cid updates) w = snd (updateConversation cid updates w)"
| "perform (DeleteConversation cid) w = snd (deleteConversation cid w)"
| "perform (SaveCompleteConversation s items) w = snd (saveCompleteConversation s items w)"

fun saveMessages ::
  "string \<Rightarrow> (jsstring \<times> jsstring \<times> bool) list \<Rightarrow> world \<Rightarrow> (exn + saved list) \<times> world" where
  "saveMessages cid [] w = (Inr [], w)"
| "saveMessages cid ((r, c, e) # rest) w =
     (case saveMessage cid r c e w of
        (Inl x, w1) \<Rightarrow> (Inl x, w1)
      | (Inr s, w1) \<Rightarrow>
          (case saveMessages cid rest w1 of
             (Inl x, w2) \<Rightarrow> (Inl x, w2)
           | (Inr ss, w2) \<Rightarrow> (Inr (s # ss), w2)))"

text \<open>
  The consistency of the two tables: with the \<open>foreign_keys\<close> pragma on, every message
  references a conversation row, and every conversation row's \<open>message_count\<close> is the
  number of message rows referencing it.
\<close>

definition refs_ok :: "world \<Rightarrow> bool" where
  "refs_ok w = (\<forall>m \<in> set (messages w). conversation_id m \<in> conv_id ` set (conversations w))"

definition count_ok :: "world \<Rightarrow> bool" where
  "count_ok w =
     (\<forall>c \<in> set (conversations w).
        message_count c = int (length (filter (\<lambda>m. conversation_id m = conv_id c) (messages w))))"

definition store_inv :: "world \<Rightarrow> bool" where
  "store_inv w = (foreign_keys w \<and> refs_ok w \<and> count_ok w)"

section \<open>DatabaseService\<close>

text \<open>
  A migration module: its version and its \<open>up\<close> procedure.  The version is an integer,
  as the numbering of the files under \<open>db/migrations\<close> has it.
\<close>

record migration =
  version :: int
  up :: "world \<Rightarrow> (exn + unit) \<times> world"

definition sql_insert_or_replace_metadata :: "meta_row \<Rightarrow> world \<Rightarrow> world" where
  "sql_insert_or_replace_metadata r w =
     w\<lparr>metadata := filter (\<lambda>x. meta_key x \<noteq> meta_key r) (metadata w) @ [r]\<rparr>"

text \<open>
  \<open>001_initial_schema.js\<close>: the three \<open>CREATE TABLE IF NOT EXISTS\<close> scripts, then the
  initial schema version.
\<close>

definition create_tables_if_not_exist :: "world \<Rightarrow> world" where
  "create_tables_if_not_exist w =
     (if has_schema w then w
      else w\<lparr>has_schema := True, conversations := [], messages := [], metadata := []\<rparr>)"

definition migration_001_up :: "world \<Rightarrow> (exn + unit) \<times> world" where
  "migration_001_up w =
     (let w1 = create_tables_if_not_exist w;
          (now, w2) = date_now w1
      in (Inr (), sql_insert_or_replace_metadata
                    \<lparr>meta_key = ''schema_version'', meta_value = js ''1'', meta_updated_at = now\<rparr> w2))"

definition migration_001 :: migration where
  "migration_001 = \<lparr>version = 1, up = migration_001_up\<rparr>"

definition getCurrentVersion :: "world \<Rightarrow> int option" where
  "getCurrentVersion w =
     (if \<not> has_schema w then Some 0
      else case find (\<lambda>r. meta_key r = ''schema_version'') (metadata w) of
             None \<Rightarrow> Some 0
           | Some row \<Rightarrow> parseInt10 (meta_value row))"

definition setVersion :: "int \<Rightarrow> world \<Rightarrow> (exn + unit) \<times> world" where
  "setVersion v w =
     (if \<not> has_schema w then (Inl NoSuchTable, w)
      else let (now, w1) = date_now w
           in (Inr (), sql_insert_or_replace_metadata
                         \<lparr>meta_key = ''schema_version'', meta_value = number_toString v,
                          meta_updated_at = now\<rparr> w1))"

text \<open>The steps \<open>runMigrations\<close> selects: the filter, then the sort by version.\<close>

definition pendingMigrations :: "migration list \<Rightarrow> world \<Rightarrow> migration list" where
  "pendingMigrations migrations w =
     (let currentVersion = getCurrentVersion w
      in sort_key version (filter (\<lambda>m. js_gt (version m) currentVersion) migrations))"

fun applyMigrations :: "migration list \<Rightarrow> world \<Rightarrow> (exn + unit) \<times> world" where
  "applyMigrations [] w = (Inr (), w)"
| "applyMigrations (m # ms) w =
     (case up m w of
        (Inl e, w1) \<Rightarrow> (Inl e, w1)
      | (Inr _, w1) \<Rightarrow>
          (case setVersion (version m) w1 of
             (Inl e, w2) \<Rightarrow> (Inl e, w2)
           | (Inr _, w2) \<Rightarrow> applyMigrations ms w2))"

definition runMigrations :: "migration list \<Rightarrow> world \<Rightarrow> (exn + unit) \<times> world" where
  "runMigrations migrations w = applyMigrations (pendingMigrations migrations w) w"

text \<open>
  \<open>initialize\<close> opens the file, turns the \<open>foreign_keys\<close> pragma on and runs the
  migrations that \<open>loadMigrations\<close> found; an exception is logged and thrown again.
\<close>

definition initialize :: "migration list \<Rightarrow> world \<Rightarrow> (exn + unit) \<times> world" where
  "initialize migrations w = runMigrations migrations (w\<lparr>foreign_keys := True\<rparr>)"

text \<open>A database file that has just been created: no table exists yet.\<close>

definition fresh_database :: "(nat \<Rightarrow> string) \<Rightarrow> (nat \<Rightarrow> int) \<Rightarrow> (string \<Rightarrow> string) \<Rightarrow> world" where
  "fresh_database ids ticks digest =
     \<lparr>foreign_keys = False, has_schema = False, conversations = [], messages = [], metadata = [],
      uuid_src = ids, uuid_pos = 0, clock = ticks, clock_pos = 0, sha256_hex = digest\<rparr>"

section \<open>An example database\<close>

text \<open>
  A fresh file, initialized with the repository's one migration, then one conversation
  created in it; used to run the operations on concrete inputs.
\<close>

definition demo_uuid :: "nat \<Rightarrow> string" where
  "demo_uuid n = replicate (Suc n) (CHR ''u'')"

definition demo_clock :: "nat \<Rightarrow> int" where
  "demo_clock n = 1000 + int n"

definition demo_db :: world where
  "demo_db = snd (initialize [migration_001] (fresh_database demo_uuid demo_clock (\<lambda>s. s)))"

definition demo_chat :: world where
  "demo_chat = snd (createConversation None demo_db)"

definition demo_talk :: world where
  "demo_talk =
     snd (saveMessage ''u'' (js ''assistant'') (js ''A screenshot.'') False
            (snd (saveMessage ''u'' (js ''user'') (js ''What is this?'') False demo_chat)))"

definition demo_shelf :: world where
  "demo_shelf =
     snd (updateConversation ''uu'' [(''archived'', SInt 1)]
       (snd (updateConversation ''u'' [(''starred'', SInt 1)]
         (snd (createConversation None (snd (createConversation None demo_chat)))))))"


definition demo_items :: "item list" where
  "demo_items = [\<lparr>prompt = js ''p1'', answer = js ''a1'', item_error = False\<rparr>,
                 \<lparr>prompt = js ''p2'', answer = js ''a2'', item_error = True\<rparr>]"

definition no_filters :: filters where
  "no_filters = \<lparr>f_archived = JUndefined, f_starred = JUndefined\<rparr>"

section \<open>Number printing and parsing\<close>














section \<open>Closed forms of the operations\<close>

lemma saveMessage_closed:
  "saveMessage cid r c e w =
     (let w2 = w\<lparr>uuid_pos := Suc (uuid_pos w), clock_pos := Suc (clock_pos w)\<rparr>;
          row = \<lparr>msg_id = uuid_src w (uuid_pos w), conversation_id = cid, role = r, content = c,
                 timestamp = clock w (clock_pos w), error = (if e then 1 else 0)\<rparr>
      in if \<not> has_schema w then (Inl NoSuchTable, w2)
         else if uuid_src w (uuid_pos w) \<in> msg_id ` set (messages w) then (Inl PrimaryKeyViolation, w2)
         else if foreign_keys w \<and> cid \<notin> conv_id ` set (conversations w) then (Inl ForeignKeyViolation, w2)
         else (Inr \<lparr>sv_id = uuid_src w (uuid_pos w), sv_timestamp = clock w (clock_pos w)\<rparr>,
               w\<lparr>uuid_pos := Suc (uuid_pos w), clock_pos := Suc (Suc (clock_pos w)),
                 messages := messages w @ [row],
                 conversations := map (\<lambda>x. if conv_id x = cid
                     then x\<lparr>updated_at := clock w (Suc (clock_pos w)), message_count := message_count x + 1\<rparr>
                     else x) (conversations w)\<rparr>))"
  by (simp add: saveMessage_def randomUUID_def date_now_def sql_insert_message_def
      updateConversationTimestamp_def incrementMessageCount_def sql_update_conversations_def
      Let_def comp_def cong: if_cong)

section \<open>The example database, evaluated\<close>

lemma demo_db_eval:
  "demo_db = \<lparr>foreign_keys = True, has_schema = True, conversations = [], messages = [],
      metadata = [\<lparr>meta_key = ''schema_version'', meta_value = js ''1'', meta_updated_at = 1001\<rparr>],
      uuid_src = demo_uuid, uuid_pos = 0, clock = demo_clock, clock_pos = 2, sha256_hex = (\<lambda>s. s)\<rparr>"
  apply (simp add: demo_db_def initialize_def fresh_database_def runMigrations_def pendingMigrations_def
     getCurrentVersion_def js_gt_def migration_001_def migration_001_up_def create_tables_if_not_exist_def
     date_now_def sql_insert_or_replace_metadata_def setVersion_def demo_clock_def)
  apply (simp add: number_toString_def js_def)
  apply (subst nat_digits.simps)
  apply (simp add: digit_char_def)
  done

lemma demo_chat_eval:
  "demo_chat = \<lparr>foreign_keys = True, has_schema = True,
      conversations = [\<lparr>conv_id = ''u'', screenshot_data_url = None, screenshot_hash = None,
         title = SNull, created_at = 1002, updated_at = 1002, message_count = 0,
         starred = SInt 0, archived = SInt 0\<rparr>],
      messages = [],
      metadata = [\<lparr>meta_key = ''schema_version'', meta_value = js ''1'', meta_updated_at = 1001\<rparr>],
      uuid_src = demo_uuid, uuid_pos = 1, clock = demo_clock, clock_pos = 3, sha256_hex = (\<lambda>s. s)\<rparr>"
  by (simp add: demo_chat_def demo_db_eval createConversation_def randomUUID_def date_now_def
      truthy_def sql_insert_conversation_def demo_uuid_def demo_clock_def)

lemma demo_talk_eval:
  "demo_talk = \<lparr>foreign_keys = True, has_schema = True,
      conversations = [\<lparr>conv_id = ''u'', screenshot_data_url = None, screenshot_hash = None,
         title = SNull, created_at = 1002, updated_at = 1006, message_count = 2,
         starred = SInt 0, archived = SInt 0\<rparr>],
      messages = [\<lparr>msg_id = ''uu'', conversation_id = ''u'', role = js ''user'',
                    content = js ''What is this?'', timestamp = 1003, error = 0\<rparr>,
                  \<lparr>msg_id = ''uuu'', conversation_id = ''u'', role = js ''assistant'',
                    content = js ''A screenshot.'', timestamp = 1005, error = 0\<rparr>],
      metadata = [\<lparr>meta_key = ''schema_version'', meta_value = js ''1'', meta_updated_at = 1001\<rparr>],
      uuid_src = demo_uuid, uuid_pos = 3, clock = demo_clock, clock_pos = 7, sha256_hex = (\<lambda>s. s)\<rparr>"
  by (simp add: demo_talk_def saveMessage_closed demo_chat_eval demo_uuid_def demo_clock_def Let_def)

section \<open>Facts about the reads\<close>

lemma find_conv_None: "cid \<notin> conv_id ` set cs \<Longrightarrow> find (\<lambda>c. conv_id c = cid) cs = None"
  by (induction cs) auto

lemma find_conv_Some:
  "cid \<in> conv_id ` set cs \<Longrightarrow> \<exists>c \<in> set cs. conv_id c = cid \<and> find (\<lambda>c. conv_id c = cid) cs = Some c"
  by (induction cs) auto

lemma find_conv_distinct:
  "distinct (map conv_id cs) \<Longrightarrow> c \<in> set cs \<Longrightarrow> find (\<lambda>x. conv_id x = conv_id c) cs = Some c"
  by (induction cs) (auto simp: rev_image_eqI)

lemma normalize_fields:
  "map v_role (map normalize ms) = map role ms"
  "map v_content (map normalize ms) = map content ms"
  "map v_timestamp (map normalize ms) = map timestamp ms"
  "map v_error (map normalize ms) = map (\<lambda>m. error m = 1) ms"
  "map v_id (map normalize ms) = map msg_id ms"
  by (simp_all add: normalize_def comp_def)

lemma s_id_summarize: "s_id (summarize ms c) = conv_id c"
  by (simp add: summarize_def Let_def)

lemma set_sql_limit_offset: "set (sql_limit_offset limit offset xs) \<subseteq> set xs"
  by (auto simp: sql_limit_offset_def Let_def dest: in_set_takeD in_set_dropD)


lemma listing_ids:
  assumes "getAllConversations limit offset f w = Inr ss"
  shows "s_id ` set ss \<subseteq> conv_id ` set (conversations w)"
proof -
  let ?rows = "sql_limit_offset limit offset
                 (sort_key (\<lambda>c. - updated_at c) (filter (whereClause f) (conversations w)))"
  have ss: "ss = map (summarize (messages w)) ?rows"
    using assms by (simp add: getAllConversations_def split: if_splits)
  have sub: "set ?rows \<subseteq> set (conversations w)"
    using set_sql_limit_offset by fastforce
  have "s_id ` set ss = conv_id ` set ?rows"
    unfolding ss by (simp add: image_image s_id_summarize)
  with sub show ?thesis by blast
qed

section \<open>Facts about the listing\<close>

lemma summarize_fields:
  "s_updated_at (summarize ms c) = updated_at c"
  "s_archived (summarize ms c) = archived c"
  "s_starred (summarize ms c) = starred c"
  "s_message_count (summarize ms c) = message_count c"
  "s_created_at (summarize ms c) = created_at c"
  by (simp_all add: summarize_def Let_def)

lemma sorted_wrt_sql_limit_offset:
  "sorted_wrt P xs \<Longrightarrow> sorted_wrt P (sql_limit_offset limit offset xs)"
  by (simp add: sql_limit_offset_def Let_def sorted_wrt_take sorted_wrt_drop)

lemma sql_limit_offset_all: "limit < 0 \<Longrightarrow> offset \<le> 0 \<Longrightarrow> sql_limit_offset limit offset xs = xs"
  by (simp add: sql_limit_offset_def)

lemma sorted_desc_sort_key:
  "sorted_wrt (\<lambda>a b. updated_at a \<ge> updated_at b) (sort_key (\<lambda>c. - updated_at c) xs)"
proof -
  have "sorted (map (\<lambda>c. - updated_at c) (sort_key (\<lambda>c. - updated_at c) xs))"
    by (rule sorted_sort_key)
  then show ?thesis by (simp add: sorted_map)
qed

lemma whereClause_iff:
  "whereClause f c \<longleftrightarrow>
     archived c = SInt (if f_archived f = JBool True then 1 else 0)
     \<and> (f_starred f = JBool True \<longrightarrow> starred c = SInt 1)"
  by (simp add: whereClause_def)

section \<open>Facts about updating\<close>

lemma assign_frame:
  "conv_id (assign kv c) = conv_id c"
  "created_at (assign kv c) = created_at c"
  "updated_at (assign kv c) = updated_at c"
  "message_count (assign kv c) = message_count c"
  "screenshot_data_url (assign kv c) = screenshot_data_url c"
  "screenshot_hash (assign kv c) = screenshot_hash c"
  by (simp_all add: assign_def)

lemma fold_assign_closed:
  "distinct (map fst updates) \<Longrightarrow>
   fold assign (filter (\<lambda>kv. fst kv \<in> set allowed) updates) c =
     c\<lparr>title := updated_value updates ''title'' (title c),
       starred := updated_value updates ''starred'' (starred c),
       archived := updated_value updates ''archived'' (archived c)\<rparr>"
proof (induction updates arbitrary: c)
  case Nil
  then show ?case by (simp add: updated_value_def)
next
  case (Cons kv updates)
  obtain k v where kv: "kv = (k, v)" by (cases kv)
  from Cons.prems have d: "distinct (map fst updates)" and nk: "k \<notin> fst ` set updates"
    by (simp_all add: kv)
  have mo: "map_of updates k = None" using nk by (simp add: map_of_eq_None_iff)
  have ih: "fold assign (filter (\<lambda>kv. fst kv \<in> set allowed) updates) (assign kv c) =
     (assign kv c)\<lparr>title := updated_value updates ''title'' (title (assign kv c)),
       starred := updated_value updates ''starred'' (starred (assign kv c)),
       archived := updated_value updates ''archived'' (archived (assign kv c))\<rparr>"
    by (rule Cons.IH[OF d])
  consider "k = ''title''" | "k = ''starred''" | "k = ''archived''" | "k \<notin> set allowed"
    by (auto simp: allowed_def)
  then show ?case
  proof cases
    case 1
    have a: "assign (''title'', v) c = c\<lparr>title := v\<rparr>" by (simp add: assign_def)
    show ?thesis using ih mo by (simp add: kv 1 a allowed_def updated_value_def)
  next
    case 2
    have a: "assign (''starred'', v) c = c\<lparr>starred := v\<rparr>" by (simp add: assign_def)
    show ?thesis using ih mo by (simp add: kv 2 a allowed_def updated_value_def)
  next
    case 3
    have a: "assign (''archived'', v) c = c\<lparr>archived := v\<rparr>" by (simp add: assign_def)
    show ?thesis using ih mo by (simp add: kv 3 a allowed_def updated_value_def)
  next
    case 4
    then have "k \<noteq> ''title''" "k \<noteq> ''starred''" "k \<noteq> ''archived''"
      by (auto simp: allowed_def)
    then show ?thesis using Cons.IH[OF d, of c] 4 by (simp add: kv updated_value_def)
  qed
qed

lemma updateConversation_closed:
  assumes "distinct (map fst updates)"
  shows "updateConversation cid updates w =
     (if \<forall>k \<in> fst ` set updates. k \<notin> set allowed then (Inr (), w)
      else if \<not> has_schema w then (Inl NoSuchTable, w\<lparr>clock_pos := Suc (clock_pos w)\<rparr>)
      else (Inr (), w\<lparr>clock_pos := Suc (clock_pos w),
                      conversations := map (\<lambda>c. if conv_id c = cid
                          then c\<lparr>title := updated_value updates ''title'' (title c),
                                 starred := updated_value updates ''starred'' (starred c),
                                 archived := updated_value updates ''archived'' (archived c),
                                 updated_at := clock w (clock_pos w)\<rparr>
                          else c) (conversations w)\<rparr>))"
proof -
  have e: "(filter (\<lambda>kv. fst kv \<in> set allowed) updates = []) \<longleftrightarrow>
        (\<forall>k \<in> fst ` set updates. k \<notin> set allowed)"
    by (auto simp: filter_empty_conv)
  show ?thesis
    unfolding updateConversation_def Let_def e
    by (simp add: date_now_def sql_update_conversations_def fold_assign_closed[OF assms])
qed

lemma demo_shelf_eval:
  "demo_shelf = \<lparr>foreign_keys = True, has_schema = True,
      conversations =
        [\<lparr>conv_id = ''u'', screenshot_data_url = None, screenshot_hash = None,
           title = SNull, created_at = 1002, updated_at = 1005, message_count = 0,
           starred = SInt 1, archived = SInt 0\<rparr>,
         \<lparr>conv_id = ''uu'', screenshot_data_url = None, screenshot_hash = None,
           title = SNull, created_at = 1003, updated_at = 1006, message_count = 0,
           starred = SInt 0, archived = SInt 1\<rparr>,
         \<lparr>conv_id = ''uuu'', screenshot_data_url = None, screenshot_hash = None,
           title = SNull, created_at = 1004, updated_at = 1004, message_count = 0,
           starred = SInt 0, archived = SInt 0\<rparr>],
      messages = [],
      metadata = [\<lparr>meta_key = ''schema_version'', meta_value = js ''1'', meta_updated_at = 1001\<rparr>],
      uuid_src = demo_uuid, uuid_pos = 3, clock = demo_clock, clock_pos = 7, sha256_hex = (\<lambda>s. s)\<rparr>"
  by (simp add: demo_shelf_def demo_chat_eval createConversation_def randomUUID_def date_now_def
      truthy_def sql_insert_conversation_def demo_uuid_def demo_clock_def
      updateConversation_closed updated_value_def allowed_def)

section \<open>The consistency of the tables\<close>

lemma createConversation_closed:
  "createConversation s w =
     (let w2 = w\<lparr>uuid_pos := Suc (uuid_pos w), clock_pos := Suc (clock_pos w)\<rparr>;
          row = \<lparr>conv_id = uuid_src w (uuid_pos w),
                 screenshot_data_url = (if truthy s then s else None),
                 screenshot_hash = (if truthy s then Some (sha256_hex w (the s)) else None),
                 title = SNull, created_at = clock w (clock_pos w), updated_at = clock w (clock_pos w),
                 message_count = 0, starred = SInt 0, archived = SInt 0\<rparr>
      in if \<not> has_schema w then (Inl NoSuchTable, w2)
         else if uuid_src w (uuid_pos w) \<in> conv_id ` set (conversations w)
           then (Inl PrimaryKeyViolation, w2)
         else (Inr \<lparr>cr_id = uuid_src w (uuid_pos w), cr_created_at = clock w (clock_pos w)\<rparr>,
               w\<lparr>uuid_pos := Suc (uuid_pos w), clock_pos := Suc (clock_pos w),
                 conversations := conversations w @ [row]\<rparr>))"
  by (simp add: createConversation_def randomUUID_def date_now_def sql_insert_conversation_def
      calculateHash_def Let_def)

lemma store_inv_fields:
  "foreign_keys w' = foreign_keys w \<Longrightarrow> conversations w' = conversations w \<Longrightarrow>
   messages w' = messages w \<Longrightarrow> store_inv w' = store_inv w"
  by (simp add: store_inv_def refs_ok_def count_ok_def)

lemma no_refs_count:
  "refs_ok w \<Longrightarrow> cid \<notin> conv_id ` set (conversations w) \<Longrightarrow>
   filter (\<lambda>m. conversation_id m = cid) (messages w) = []"
  by (auto simp: refs_ok_def filter_empty_conv)

lemma conv_ids_map:
  "(\<And>x. conv_id (g x) = conv_id x) \<Longrightarrow> conv_id ` set (map g xs) = conv_id ` set xs"
  by (simp add: image_image)

lemma store_inv_createConversation:
  assumes "store_inv w"
  shows "store_inv (snd (createConversation s w))"
proof -
  let ?id = "uuid_src w (uuid_pos w)"
  show ?thesis
  proof (cases "has_schema w \<and> ?id \<notin> conv_id ` set (conversations w)")
    case False
    then have "store_inv (snd (createConversation s w)) = store_inv w"
      by (intro store_inv_fields) (auto simp: createConversation_closed Let_def)
    with assms show ?thesis by simp
  next
    case True
    from assms have r: "refs_ok w" by (simp add: store_inv_def)
    have z: "filter (\<lambda>m. conversation_id m = ?id) (messages w) = []"
      using no_refs_count[OF r] True by blast
    show ?thesis
      using assms True z
      by (simp add: createConversation_closed Let_def store_inv_def refs_ok_def count_ok_def)
  qed
qed

lemma store_inv_saveMessage:
  assumes "store_inv w"
  shows "store_inv (snd (saveMessage cid r c e w))"
proof -
  let ?id = "uuid_src w (uuid_pos w)"
  show ?thesis
  proof (cases "has_schema w \<and> ?id \<notin> msg_id ` set (messages w)
                 \<and> cid \<in> conv_id ` set (conversations w)")
    case False
    then have "store_inv (snd (saveMessage cid r c e w)) = store_inv w"
      using assms
      by (intro store_inv_fields) (auto simp: saveMessage_closed Let_def store_inv_def)
    with assms show ?thesis by simp
  next
    case True
    let ?bump = "\<lambda>x. if conv_id x = cid
                     then x\<lparr>updated_at := clock w (Suc (clock_pos w)), message_count := message_count x + 1\<rparr>
                     else x"
    have ids: "conv_id ` set (map ?bump (conversations w)) = conv_id ` set (conversations w)"
      by (rule conv_ids_map) simp
    from assms have fk: "foreign_keys w" and r: "refs_ok w" and c: "count_ok w"
      by (simp_all add: store_inv_def)
    let ?row = "\<lparr>msg_id = ?id, conversation_id = cid, role = r, content = c,
                 timestamp = clock w (clock_pos w), error = (if e then 1 else 0)\<rparr>"
    let ?w = "snd (saveMessage cid r c e w)"
    have cs: "conversations ?w = map ?bump (conversations w)"
      and ms: "messages ?w = messages w @ [?row]"
      and fk': "foreign_keys ?w"
      using True fk by (simp_all add: saveMessage_closed Let_def)
    have r': "refs_ok ?w"
      unfolding refs_ok_def cs ms ids using r True by (simp add: refs_ok_def)
    have c': "count_ok ?w"
      unfolding count_ok_def cs ms
    proof
      fix y assume "y \<in> set (map ?bump (conversations w))"
      then obtain x where x: "x \<in> set (conversations w)" "y = ?bump x"
        unfolding set_map by blast
      from c x(1) have cx: "message_count x
          = int (length (filter (\<lambda>m. conversation_id m = conv_id x) (messages w)))"
        by (simp add: count_ok_def)
      show "message_count y
          = int (length (filter (\<lambda>m. conversation_id m = conv_id y) (messages w @ [?row])))"
      proof (cases "conv_id x = cid")
        case True
        then show ?thesis using cx x(2) by simp
      next
        case False
        then show ?thesis using cx x(2) by simp
      qed
    qed
    show ?thesis using fk' r' c' by (simp add: store_inv_def)
  qed
qed

lemma store_inv_map:
  assumes g: "\<And>x. conv_id (g x) = conv_id x" "\<And>x. message_count (g x) = message_count x"
    and w': "foreign_keys w' = foreign_keys w" "messages w' = messages w"
            "conversations w' = map g (conversations w)"
    and inv: "store_inv w"
  shows "store_inv w'"
proof -
  have ids: "conv_id ` set (map g (conversations w)) = conv_id ` set (conversations w)"
    by (rule conv_ids_map) (rule g(1))
  have r: "refs_ok w'"
    unfolding refs_ok_def w' ids using inv by (simp add: store_inv_def refs_ok_def)
  have c: "count_ok w'"
    unfolding count_ok_def w'
  proof
    fix y assume "y \<in> set (map g (conversations w))"
    then obtain x where x: "x \<in> set (conversations w)" "y = g x"
      unfolding set_map by blast
    from inv x(1) have "message_count x
          = int (length (filter (\<lambda>m. conversation_id m = conv_id x) (messages w)))"
      by (simp add: store_inv_def count_ok_def)
    then show "message_count y
          = int (length (filter (\<lambda>m. conversation_id m = conv_id y) (messages w)))"
      by (simp add: x(2) g)
  qed
  from inv have "foreign_keys w'" by (simp add: w' store_inv_def)
  with r c show ?thesis by (simp add: store_inv_def)
qed

lemma fold_assign_frame:
  "conv_id (fold assign sets c) = conv_id c \<and> message_count (fold assign sets c) = message_count c"
  by (induction sets arbitrary: c) (simp_all add: assign_frame)

lemma store_inv_updateConversation:
  assumes "store_inv w"
  shows "store_inv (snd (updateConversation cid updates w))"
proof -
  let ?sets = "filter (\<lambda>kv. fst kv \<in> set allowed) updates"
  let ?w = "snd (updateConversation cid updates w)"
  show ?thesis
  proof (cases "?sets \<noteq> [] \<and> has_schema w")
    case False
    then have "store_inv ?w = store_inv w"
      by (intro store_inv_fields) (auto simp: updateConversation_def Let_def date_now_def)
    with assms show ?thesis by simp
  next
    case True
    let ?g = "\<lambda>c. if conv_id c = cid
                  then (fold assign ?sets c)\<lparr>updated_at := clock w (clock_pos w)\<rparr> else c"
    have "foreign_keys ?w = foreign_keys w" "messages ?w = messages w"
      "conversations ?w = map ?g (conversations w)"
      using True
      by (simp_all add: updateConversation_def Let_def date_now_def sql_update_conversations_def)
    then show ?thesis
      by (rule store_inv_map[where g = ?g, rotated 2]) (simp_all add: assms fold_assign_frame)
  qed
qed

lemma store_inv_deleteConversation:
  assumes "store_inv w"
  shows "store_inv (snd (deleteConversation cid w))"
proof (cases "has_schema w")
  case False
  then show ?thesis using assms by (simp add: deleteConversation_def)
next
  case True
  let ?w = "snd (deleteConversation cid w)"
  from assms have fk: "foreign_keys w" and r: "refs_ok w" and c: "count_ok w"
    by (simp_all add: store_inv_def)
  have cs: "conversations ?w = filter (\<lambda>c. conv_id c \<noteq> cid) (conversations w)"
    and ms: "messages ?w = filter (\<lambda>m. conversation_id m \<noteq> cid) (messages w)"
    and fk': "foreign_keys ?w"
    using True fk by (simp_all add: deleteConversation_def sql_delete_conversation_def)
  have r': "refs_ok ?w"
    unfolding refs_ok_def cs ms using r by (auto simp: refs_ok_def)
  have c': "count_ok ?w"
    unfolding count_ok_def cs ms
  proof
    fix y assume "y \<in> set (filter (\<lambda>c. conv_id c \<noteq> cid) (conversations w))"
    then have y: "y \<in> set (conversations w)" "conv_id y \<noteq> cid" by simp_all
    have "filter (\<lambda>m. conversation_id m = conv_id y)
            (filter (\<lambda>m. conversation_id m \<noteq> cid) (messages w))
          = filter (\<lambda>m. conversation_id m = conv_id y) (messages w)"
      using y(2) by (simp add: conj_commute cong: conj_cong) (metis (mono_tags, lifting) filter_cong)
    with c y(1) show "message_count y = int (length (filter (\<lambda>m. conversation_id m = conv_id y)
            (filter (\<lambda>m. conversation_id m \<noteq> cid) (messages w))))"
      by (simp add: count_ok_def)
  qed
  show ?thesis using fk' r' c' by (simp add: store_inv_def)
qed

lemma store_inv_saveItems:
  "store_inv w \<Longrightarrow> store_inv (snd (saveItems cid items w))"
proof (induction items arbitrary: w)
  case Nil
  then show ?case by simp
next
  case (Cons it items)
  let ?r1 = "saveMessage cid (js ''user'') (prompt it) False w"
  have i1: "store_inv (snd ?r1)" by (rule store_inv_saveMessage[OF Cons.prems])
  let ?r2 = "saveMessage cid (js ''assistant'') (answer it) (item_error it) (snd ?r1)"
  have i2: "store_inv (snd ?r2)" by (rule store_inv_saveMessage[OF i1])
  have i3: "store_inv (snd (saveItems cid items (snd ?r2)))" by (rule Cons.IH[OF i2])
  obtain a1 w1 where r1: "?r1 = (a1, w1)" by (cases ?r1)
  obtain a2 w2 where r2: "saveMessage cid (js ''assistant'') (answer it) (item_error it) w1 = (a2, w2)"
    by (cases "saveMessage cid (js ''assistant'') (answer it) (item_error it) w1")
  show ?case
    using i1 i2 i3 r1 r2 by (cases a1; cases a2) simp_all
qed

lemma store_inv_saveCompleteConversation:
  assumes "store_inv w"
  shows "store_inv (snd (saveCompleteConversation s items w))"
proof -
  let ?r1 = "createConversation (if truthy s then s else None) w"
  have i1: "store_inv (snd ?r1)" by (rule store_inv_createConversation[OF assms])
  obtain a1 w1 where r1: "?r1 = (a1, w1)" by (cases ?r1)
  show ?thesis
  proof (cases a1)
    case (Inl e)
    then show ?thesis using i1 r1 by (simp add: saveCompleteConversation_def)
  next
    case (Inr cr)
    have i2: "store_inv (snd (saveItems (cr_id cr) items w1))"
      using store_inv_saveItems i1 r1 by simp
    obtain a2 w2 where r2: "saveItems (cr_id cr) items w1 = (a2, w2)"
      by (cases "saveItems (cr_id cr) items w1")
    show ?thesis using Inr r1 r2 i2 by (cases a2) (simp_all add: saveCompleteConversation_def)
  qed
qed

lemma store_inv_perform: "store_inv w \<Longrightarrow> store_inv (perform c w)"
  by (cases c)
     (simp_all add: store_inv_createConversation store_inv_saveMessage store_inv_updateConversation
        store_inv_deleteConversation store_inv_saveCompleteConversation)

lemma store_inv_run: "store_inv w \<Longrightarrow> store_inv (fold perform calls w)"
  by (induction calls arbitrary: w) (simp_all add: store_inv_perform)

lemma saveMessage_success:
  assumes "saveMessage cid r c e w = (Inr s, w')"
  shows "has_schema w' = has_schema w
     \<and> foreign_keys w' = foreign_keys w
     \<and> map conv_id (conversations w') = map conv_id (conversations w)
     \<and> messages w' = messages w @ [\<lparr>msg_id = sv_id s, conversation_id = cid, role = r,
            content = c, timestamp = sv_timestamp s, error = (if e then 1 else 0)\<rparr>]"
  using assms
  by (auto simp: saveMessage_closed Let_def comp_def split: if_splits cong: if_cong)

lemma saveMessages_success:
  "saveMessages cid args w = (Inr ss, w') \<Longrightarrow>
     has_schema w' = has_schema w
   \<and> foreign_keys w' = foreign_keys w
   \<and> map conv_id (conversations w') = map conv_id (conversations w)
   \<and> length (filter (\<lambda>m. conversation_id m = cid) (messages w'))
       = length (filter (\<lambda>m. conversation_id m = cid) (messages w)) + length args
   \<and> length ss = length args"
proof (induction args arbitrary: w ss)
  case Nil
  then show ?case by simp
next
  case (Cons a args)
  obtain r c e where a: "a = (r, c, e)" by (cases a)
  from Cons.prems obtain s w1 ss' where
    s1: "saveMessage cid r c e w = (Inr s, w1)" and
    s2: "saveMessages cid args w1 = (Inr ss', w')" and ss: "ss = s # ss'"
    by (auto simp: a split: prod.splits sum.splits)
  from saveMessage_success[OF s1] Cons.IH[OF s2] ss show ?case by simp
qed

lemma store_inv_saveMessages:
  "store_inv w \<Longrightarrow> store_inv (snd (saveMessages cid args w))"
proof (induction args arbitrary: w)
  case Nil
  then show ?case by simp
next
  case (Cons a args)
  obtain r c e where a: "a = (r, c, e)" by (cases a)
  have i1: "store_inv (snd (saveMessage cid r c e w))" by (rule store_inv_saveMessage[OF Cons.prems])
  have i2: "store_inv (snd (saveMessages cid args (snd (saveMessage cid r c e w))))"
    by (rule Cons.IH[OF i1])
  obtain a1 w1 where r1: "saveMessage cid r c e w = (a1, w1)" by (cases "saveMessage cid r c e w")
  obtain a2 w2 where r2: "saveMessages cid args w1 = (a2, w2)" by (cases "saveMessages cid args w1")
  show ?case using i1 i2 r1 r2 by (cases a1; cases a2) (simp_all add: a)
qed

lemma count_read:
  assumes "store_inv w" "getConversationWithMessages cid w = Inr (Some (c, vs))"
  shows "getConversation cid w = Inr (Some c)
       \<and> message_count c = int (length vs)
       \<and> length vs = length (filter (\<lambda>m. conversation_id m = cid) (messages w))"
proof -
  from assms(2) have g: "getConversation cid w = Inr (Some c)"
    and vs: "vs = map normalize (sort_key timestamp (filter (\<lambda>m. conversation_id m = cid) (messages w)))"
    by (auto simp: getConversationWithMessages_def split: sum.splits option.splits)
  from g have f: "find (\<lambda>c. conv_id c = cid) (conversations w) = Some c"
    by (simp add: getConversation_def split: if_splits)
  then have c: "c \<in> set (conversations w)" "conv_id c = cid"
    by (auto simp: find_Some_iff)
  from assms(1) c have "message_count c = int (length (filter (\<lambda>m. conversation_id m = cid) (messages w)))"
    by (auto simp: store_inv_def count_ok_def)
  then show ?thesis using g by (simp add: vs)
qed

lemma read_existing:
  assumes "has_schema w" "cid \<in> conv_id ` set (conversations w)"
  shows "\<exists>c vs. getConversation cid w = Inr (Some c)
            \<and> getConversationWithMessages cid w = Inr (Some (c, vs))"
proof -
  from find_conv_Some[OF assms(2)] obtain c where
    "find (\<lambda>c. conv_id c = cid) (conversations w) = Some c" by blast
  then show ?thesis using assms(1)
    by (simp add: getConversation_def getConversationWithMessages_def)
qed

lemma createConversation_success:
  assumes "createConversation s w = (Inr cr, w')"
  shows "has_schema w' \<and> foreign_keys w' = foreign_keys w \<and> messages w' = messages w
     \<and> cr_id cr \<notin> conv_id ` set (conversations w)
     \<and> cr_id cr = uuid_src w (uuid_pos w)
     \<and> (\<exists>row. conversations w' = conversations w @ [row] \<and> conv_id row = cr_id cr
            \<and> message_count row = 0)"
  using assms
  by (auto simp: createConversation_closed Let_def split: if_splits)

section \<open>Facts about appending a whole conversation\<close>

lemma saveMessage_step:
  assumes hs: "has_schema w" and ex: "cid \<in> conv_id ` set (conversations w)"
    and fresh: "\<forall>n \<ge> uuid_pos w. uuid_src w n \<notin> msg_id ` set (messages w)"
    and inj: "inj_on (uuid_src w) {uuid_pos w..}"
    and mono: "\<forall>i j. clock_pos w \<le> i \<and> i \<le> j \<longrightarrow> clock w i \<le> clock w j"
  shows "\<exists>s w1. saveMessage cid r c e w = (Inr s, w1)
      \<and> messages w1 = messages w @ [\<lparr>msg_id = uuid_src w (uuid_pos w), conversation_id = cid,
            role = r, content = c, timestamp = clock w (clock_pos w), error = (if e then 1 else 0)\<rparr>]
      \<and> has_schema w1 \<and> foreign_keys w1 = foreign_keys w
      \<and> map conv_id (conversations w1) = map conv_id (conversations w)
      \<and> uuid_src w1 = uuid_src w \<and> uuid_pos w1 = Suc (uuid_pos w)
      \<and> clock w1 = clock w \<and> clock_pos w1 = Suc (Suc (clock_pos w))
      \<and> (\<forall>n \<ge> uuid_pos w1. uuid_src w1 n \<notin> msg_id ` set (messages w1))
      \<and> inj_on (uuid_src w1) {uuid_pos w1..}
      \<and> (\<forall>i j. clock_pos w1 \<le> i \<and> i \<le> j \<longrightarrow> clock w1 i \<le> clock w1 j)"
proof -
  have f0: "uuid_src w (uuid_pos w) \<notin> msg_id ` set (messages w)" using fresh by simp
  have ne: "uuid_src w n \<noteq> uuid_src w (uuid_pos w)" if "Suc (uuid_pos w) \<le> n" for n
  proof
    assume "uuid_src w n = uuid_src w (uuid_pos w)"
    with inj that have "n = uuid_pos w" by (auto dest!: inj_onD[where x = n and y = "uuid_pos w"])
    with that show False by simp
  qed
  have inj': "inj_on (uuid_src w) {Suc (uuid_pos w)..}"
    by (rule inj_on_subset[OF inj]) auto
  show ?thesis
    using hs ex f0 fresh ne inj' mono
    by (simp add: saveMessage_closed Let_def comp_def cong: if_cong)
qed

lemma saveItems_appends:
  assumes "has_schema w" and "cid \<in> conv_id ` set (conversations w)"
    and "\<forall>n \<ge> uuid_pos w. uuid_src w n \<notin> msg_id ` set (messages w)"
    and "inj_on (uuid_src w) {uuid_pos w..}"
    and "\<forall>i j. clock_pos w \<le> i \<and> i \<le> j \<longrightarrow> clock w i \<le> clock w j"
  shows "\<exists>w' new. saveItems cid items w = (Inr (), w')
      \<and> messages w' = messages w @ new
      \<and> map (\<lambda>m. (role m, content m, error m)) new
          = concat (map (\<lambda>it. [(js ''user'', prompt it, 0),
                                 (js ''assistant'', answer it, if item_error it then 1 else 0)])
                      items)
      \<and> (\<forall>m \<in> set new. conversation_id m = cid)
      \<and> sorted (map timestamp new)
      \<and> (\<forall>m \<in> set new. clock w (clock_pos w) \<le> timestamp m)
      \<and> has_schema w'
      \<and> map conv_id (conversations w') = map conv_id (conversations w)"
  using assms
proof (induction items arbitrary: w)
  case Nil
  then show ?case by simp
next
  case (Cons it items)
  let ?row1 = "\<lparr>msg_id = uuid_src w (uuid_pos w), conversation_id = cid,
            role = js ''user'', content = prompt it, timestamp = clock w (clock_pos w),
            error = (if False then 1 else 0)\<rparr>"
  from saveMessage_step[OF Cons.prems, of "js ''user''" "prompt it" False]
  obtain s1 w1 where
    s1: "saveMessage cid (js ''user'') (prompt it) False w = (Inr s1, w1)"
    and m1: "messages w1 = messages w @ [?row1]"
    and h1: "has_schema w1"
    and c1: "map conv_id (conversations w1) = map conv_id (conversations w)"
    and e1: "clock w1 = clock w" "clock_pos w1 = Suc (Suc (clock_pos w))"
    and p1: "\<forall>n \<ge> uuid_pos w1. uuid_src w1 n \<notin> msg_id ` set (messages w1)"
        "inj_on (uuid_src w1) {uuid_pos w1..}"
        "\<forall>i j. clock_pos w1 \<le> i \<and> i \<le> j \<longrightarrow> clock w1 i \<le> clock w1 j"
    by blast
  have x1: "cid \<in> conv_id ` set (conversations w1)"
    using Cons.prems(2) arg_cong[OF c1, of set] by simp
  let ?row2 = "\<lparr>msg_id = uuid_src w1 (uuid_pos w1), conversation_id = cid,
            role = js ''assistant'', content = answer it, timestamp = clock w1 (clock_pos w1),
            error = (if item_error it then 1 else 0)\<rparr>"
  from saveMessage_step[OF h1 x1 p1, of "js ''assistant''" "answer it" "item_error it"]
  obtain s2 w2 where
    s2: "saveMessage cid (js ''assistant'') (answer it) (item_error it) w1 = (Inr s2, w2)"
    and m2: "messages w2 = messages w1 @ [?row2]"
    and h2: "has_schema w2"
    and c2: "map conv_id (conversations w2) = map conv_id (conversations w1)"
    and e2: "clock w2 = clock w1" "clock_pos w2 = Suc (Suc (clock_pos w1))"
    and p2: "\<forall>n \<ge> uuid_pos w2. uuid_src w2 n \<notin> msg_id ` set (messages w2)"
        "inj_on (uuid_src w2) {uuid_pos w2..}"
        "\<forall>i j. clock_pos w2 \<le> i \<and> i \<le> j \<longrightarrow> clock w2 i \<le> clock w2 j"
    by blast
  have x2: "cid \<in> conv_id ` set (conversations w2)"
    using x1 arg_cong[OF c2, of set] by simp
  from Cons.IH[OF h2 x2 p2] obtain w' new where
    r: "saveItems cid items w2 = (Inr (), w')"
    and m': "messages w' = messages w2 @ new"
    and sh: "map (\<lambda>m. (role m, content m, error m)) new
          = concat (map (\<lambda>it. [(js ''user'', prompt it, 0),
                                 (js ''assistant'', answer it, if item_error it then 1 else 0)])
                      items)"
    and ci: "\<forall>m \<in> set new. conversation_id m = cid"
    and so: "sorted (map timestamp new)"
    and lb: "\<forall>m \<in> set new. clock w2 (clock_pos w2) \<le> timestamp m"
    and h': "has_schema w'"
    and c': "map conv_id (conversations w') = map conv_id (conversations w2)"
    by blast
  have t12: "clock w (clock_pos w) \<le> clock w (Suc (Suc (clock_pos w)))"
    using Cons.prems(5) by simp
  have t23: "clock w (Suc (Suc (clock_pos w))) \<le> clock w (Suc (Suc (Suc (Suc (clock_pos w)))))"
    using Cons.prems(5) by simp
  have lb2: "\<forall>m \<in> set new. clock w (Suc (Suc (Suc (Suc (clock_pos w))))) \<le> timestamp m"
    using lb by (simp add: e1 e2)
  have run: "saveItems cid (it # items) w = (Inr (), w')"
    using s1 s2 r by simp
  have ms: "messages w' = messages w @ (?row1 # ?row2 # new)"
    by (simp add: m' m2 m1)
  have shape: "map (\<lambda>m. (role m, content m, error m)) (?row1 # ?row2 # new)
          = concat (map (\<lambda>it. [(js ''user'', prompt it, 0),
                                 (js ''assistant'', answer it, if item_error it then 1 else 0)])
                      (it # items))"
    using sh by simp
  have cids: "\<forall>m \<in> set (?row1 # ?row2 # new). conversation_id m = cid"
    using ci by simp
  have sorted': "sorted (map timestamp (?row1 # ?row2 # new))"
    using so lb2 t12 t23 by (auto simp: e1)
  have lower: "\<forall>m \<in> set (?row1 # ?row2 # new). clock w (clock_pos w) \<le> timestamp m"
    using lb2 t12 t23 by (auto simp: e1)
  have cs: "map conv_id (conversations w') = map conv_id (conversations w)"
    by (simp add: c' c2 c1)
  show ?case
    apply (rule exI[of _ w'])
    apply (rule exI[of _ "?row1 # ?row2 # new"])
    apply (intro conjI)
           apply (rule run)
          apply (rule ms)
         apply (rule shape)
        apply (rule cids)
       apply (rule sorted')
      apply (rule lower)
     apply (rule h')
    apply (rule cs)
    done
qed

lemma length_concat_pairs: "length (concat (map (\<lambda>x. [g x, h x]) xs)) = 2 * length xs"
  by (induction xs) simp_all

lemma flag_is_one: "((if b then (1::int) else 0) = 1) = b"
  by simp

lemma filter_all: "\<forall>x \<in> set xs. P x \<Longrightarrow> filter P xs = xs"
  by (induction xs) simp_all

section \<open>Facts about the migrator\<close>










section \<open>The listing and the title column\<close>









section \<open>Title generation in the listing\<close>

text \<open>
  Claim C3, at a conversation without any user message.  The listing replaces the missing
  first prompt by \<open>'Untitled'\<close> before it calls \<open>generateTitle\<close>, so the branch of
  \<open>generateTitle\<close> that returns \<open>'Untitled Conversation'\<close> is never taken from the
  listing: the conversation just created in the example database is listed with the
  title \<open>'Untitled'\<close>, which is not the literal \<open>'Untitled Conversation'\<close> that
  \<open>generateTitle\<close> itself returns for a missing or empty prompt.
\<close>

theorem listed_title_of_empty_conversation:
  "getAllConversations 100 0 no_filters demo_chat =
     Inr [\<lparr>s_id = ''u'', s_created_at = 1002, s_updated_at = 1002, s_message_count = 0,
           s_starred = SInt 0, s_archived = SInt 0, s_title = js ''Untitled'', s_preview = []\<rparr>]
   \<and> js ''Untitled'' \<noteq> js ''Untitled Conversation''
   \<and> generateTitle None = js ''Untitled Conversation''
   \<and> generateTitle (Some []) = js ''Untitled Conversation''"
  by (simp add: demo_chat_eval getAllConversations_def no_filters_def whereClause_def
      sql_limit_offset_def summarize_def first_content_def truthy_def generateTitle_def
      substring0_def trim_def is_ws_def js_whitespace_def js_def)

section \<open>Roles\<close>

text \<open>
  Claim C4 as stated fails: \<open>saveMessage\<close> with the role \<open>'system'\<close>, which is neither
  \<open>'user'\<close> nor \<open>'assistant'\<close>, is accepted on the example database.  The call returns
  normally, the message row is inserted with that role, and the parent's
  \<open>message_count\<close> goes from 0 to 1 and its \<open>updated_at\<close> from 1002 to 1004.
\<close>

theorem saveMessage_accepts_other_role:
  "js ''system'' \<noteq> js ''user'' \<and> js ''system'' \<noteq> js ''assistant''
   \<and> fst (saveMessage ''u'' (js ''system'') (js ''hello'') False demo_chat)
       = Inr \<lparr>sv_id = ''uu'', sv_timestamp = 1003\<rparr>
   \<and> messages demo_chat = []
   \<and> messages (snd (saveMessage ''u'' (js ''system'') (js ''hello'') False demo_chat))
       = [\<lparr>msg_id = ''uu'', conversation_id = ''u'', role = js ''system'', content = js ''hello'',
           timestamp = 1003, error = 0\<rparr>]
   \<and> map message_count (conversations demo_chat) = [0]
   \<and> map message_count (conversations (snd (saveMessage ''u'' (js ''system'') (js ''hello'') False demo_chat))) = [1]
   \<and> map updated_at (conversations demo_chat) = [1002]
   \<and> map updated_at (conversations (snd (saveMessage ''u'' (js ''system'') (js ''hello'') False demo_chat))) = [1004]"
  by (simp add: saveMessage_closed demo_chat_eval demo_uuid_def demo_clock_def js_def Let_def)

text \<open>
  Claim C4, amended: \<open>saveMessage\<close> does not inspect the role.  Whether a call is rejected
  never depends on the role; and on a database with the schema, with an unused message
  id and an existing parent conversation, the call succeeds for every role: it inserts
  one message row carrying the role as given, adds one to the parent's \<open>message_count\<close>
  and sets its \<open>updated_at\<close> to the time read after the insert.
\<close>

theorem saveMessage_role_unchecked:
  "isl (fst (saveMessage cid r c e w)) = isl (fst (saveMessage cid r' c e w))
   \<and> (has_schema w
        \<and> uuid_src w (uuid_pos w) \<notin> msg_id ` set (messages w)
        \<and> cid \<in> conv_id ` set (conversations w) \<longrightarrow>
        fst (saveMessage cid r c e w)
          = Inr \<lparr>sv_id = uuid_src w (uuid_pos w), sv_timestamp = clock w (clock_pos w)\<rparr>
      \<and> messages (snd (saveMessage cid r c e w))
          = messages w @ [\<lparr>msg_id = uuid_src w (uuid_pos w), conversation_id = cid, role = r,
                            content = c, timestamp = clock w (clock_pos w),
                            error = (if e then 1 else 0)\<rparr>]
      \<and> conversations (snd (saveMessage cid r c e w))
          = map (\<lambda>x. if conv_id x = cid
                      then x\<lparr>updated_at := clock w (Suc (clock_pos w)),
                             message_count := message_count x + 1\<rparr>
                      else x) (conversations w))"
  by (simp add: saveMessage_closed Let_def)

theorem saveMessage_role_unchecked_witness:
  "has_schema demo_chat
   \<and> uuid_src demo_chat (uuid_pos demo_chat) \<notin> msg_id ` set (messages demo_chat)
   \<and> ''u'' \<in> conv_id ` set (conversations demo_chat)
   \<and> role (last (messages (snd (saveMessage ''u'' (js ''moderator'') (js ''hi'') True demo_chat))))
       = js ''moderator''"
  using saveMessage_role_unchecked [where w = demo_chat and cid = "''u''" and r = "js ''moderator''"
      and c = "js ''hi''" and e = True and r' = "js ''user''"]
  by (simp add: demo_chat_eval)

section \<open>Reading one conversation\<close>

text \<open>
  Claim C8.  On a database with the schema: for an id that no conversation row has,
  \<open>getConversation\<close> and \<open>getConversationWithMessages\<close> both return the not-found value
  (\<open>Inr None\<close>, a normal return and not an exception), so no message list is built.  For
  an id that a row has, \<open>getConversation\<close> returns that row (the only one with the id
  when ids are distinct, as the primary key has it), and \<open>getConversationWithMessages\<close>
  returns the same row together with the normalized images of exactly the message rows
  referencing the id, in ascending timestamp order; each image carries the row's role,
  content and timestamp, and its error field is the boolean \<open>error = 1\<close>.
\<close>

theorem getConversation_found_or_absent:
  assumes "has_schema w"
  shows "(cid \<notin> conv_id ` set (conversations w) \<longrightarrow>
            getConversation cid w = Inr None \<and> getConversationWithMessages cid w = Inr None)
       \<and> (cid \<in> conv_id ` set (conversations w) \<longrightarrow>
            (\<exists>c \<in> set (conversations w). \<exists>rows.
                conv_id c = cid
              \<and> (distinct (map conv_id (conversations w)) \<longrightarrow>
                   (\<forall>c' \<in> set (conversations w). conv_id c' = cid \<longrightarrow> c' = c))
              \<and> getConversation cid w = Inr (Some c)
              \<and> getConversationWithMessages cid w = Inr (Some (c, map normalize rows))
              \<and> mset rows = filter_mset (\<lambda>m. conversation_id m = cid) (mset (messages w))
              \<and> sorted (map timestamp rows)
              \<and> map v_role (map normalize rows) = map role rows
              \<and> map v_content (map normalize rows) = map content rows
              \<and> map v_timestamp (map normalize rows) = map timestamp rows
              \<and> map v_error (map normalize rows) = map (\<lambda>m. error m = 1) rows))"
proof (intro conjI impI)
  assume "cid \<notin> conv_id ` set (conversations w)"
  then have "find (\<lambda>c. conv_id c = cid) (conversations w) = None" by (rule find_conv_None)
  with assms show "getConversation cid w = Inr None" "getConversationWithMessages cid w = Inr None"
    by (simp_all add: getConversation_def getConversationWithMessages_def)
next
  assume "cid \<in> conv_id ` set (conversations w)"
  then obtain c where c: "c \<in> set (conversations w)" "conv_id c = cid"
    "find (\<lambda>c. conv_id c = cid) (conversations w) = Some c"
    using find_conv_Some by blast
  define rows where "rows = sort_key timestamp (filter (\<lambda>m. conversation_id m = cid) (messages w))"
  have uniq: "distinct (map conv_id (conversations w)) \<longrightarrow>
                   (\<forall>c' \<in> set (conversations w). conv_id c' = cid \<longrightarrow> c' = c)"
  proof (intro impI ballI)
    fix c' assume d: "distinct (map conv_id (conversations w))"
      and c': "c' \<in> set (conversations w)" "conv_id c' = cid"
    from find_conv_distinct[OF d c'(1)] c'(2) c(3) show "c' = c" by simp
  qed
  have g: "getConversation cid w = Inr (Some c)"
    using assms c by (simp add: getConversation_def)
  have gm: "getConversationWithMessages cid w = Inr (Some (c, map normalize rows))"
    using g by (simp add: getConversationWithMessages_def rows_def)
  have ms: "mset rows = filter_mset (\<lambda>m. conversation_id m = cid) (mset (messages w))"
    by (simp add: rows_def)
  have so: "sorted (map timestamp rows)" by (simp add: rows_def)
  show "\<exists>c \<in> set (conversations w). \<exists>rows.
                conv_id c = cid
              \<and> (distinct (map conv_id (conversations w)) \<longrightarrow>
                   (\<forall>c' \<in> set (conversations w). conv_id c' = cid \<longrightarrow> c' = c))
              \<and> getConversation cid w = Inr (Some c)
              \<and> getConversationWithMessages cid w = Inr (Some (c, map normalize rows))
              \<and> mset rows = filter_mset (\<lambda>m. conversation_id m = cid) (mset (messages w))
              \<and> sorted (map timestamp rows)
              \<and> map v_role (map normalize rows) = map role rows
              \<and> map v_content (map normalize rows) = map content rows
              \<and> map v_timestamp (map normalize rows) = map timestamp rows
              \<and> map v_error (map normalize rows) = map (\<lambda>m. error m = 1) rows"
  proof (rule bexI[of _ c], rule exI[of _ rows], intro conjI)
    show "map v_role (map normalize rows) = map role rows"
      "map v_content (map normalize rows) = map content rows"
      "map v_timestamp (map normalize rows) = map timestamp rows"
      "map v_error (map normalize rows) = map (\<lambda>m. error m = 1) rows"
      by (rule normalize_fields)+
  qed (use c(1,2) uniq g gm ms so in simp_all)
qed

theorem getConversation_found_or_absent_witness:
  "has_schema demo_talk
   \<and> ''zz'' \<notin> conv_id ` set (conversations demo_talk)
   \<and> ''u'' \<in> conv_id ` set (conversations demo_talk)
   \<and> getConversation ''zz'' demo_talk = Inr None
   \<and> getConversationWithMessages ''zz'' demo_talk = Inr None
   \<and> map_sum id (map_option (\<lambda>(c, vs). (message_count c, map v_role vs, map v_error vs)))
         (getConversationWithMessages ''u'' demo_talk)
       = Inr (Some (2, [js ''user'', js ''assistant''], [False, False]))"
  using getConversation_found_or_absent [of demo_talk "''zz''"]
    getConversation_found_or_absent [of demo_talk "''u''"]
  by (simp add: demo_talk_eval getConversationWithMessages_def getConversation_def normalize_def)

section \<open>Deleting a conversation\<close>

text \<open>
  Claim C2.  On a database with the schema, \<open>deleteConversation\<close> returns normally and
  issues the one \<open>DELETE\<close> on the conversations table: afterwards the id is not found by
  \<open>getConversation\<close> or \<open>getConversationWithMessages\<close> and is in no listing.  With the
  \<open>foreign_keys\<close> pragma on (as \<open>initialize\<close> sets it) the cascade removes every message
  row referencing the id and keeps all others.  The service itself deletes no message:
  with the pragma off the messages table is unchanged.
\<close>

theorem deleteConversation_cascades:
  assumes "has_schema w"
  shows "fst (deleteConversation cid w) = Inr ()
     \<and> getConversation cid (snd (deleteConversation cid w)) = Inr None
     \<and> getConversationWithMessages cid (snd (deleteConversation cid w)) = Inr None
     \<and> conversations (snd (deleteConversation cid w))
         = filter (\<lambda>c. conv_id c \<noteq> cid) (conversations w)
     \<and> (foreign_keys w \<longrightarrow>
          (\<forall>m \<in> set (messages (snd (deleteConversation cid w))). conversation_id m \<noteq> cid)
          \<and> messages (snd (deleteConversation cid w))
              = filter (\<lambda>m. conversation_id m \<noteq> cid) (messages w))
     \<and> (\<not> foreign_keys w \<longrightarrow> messages (snd (deleteConversation cid w)) = messages w)
     \<and> (\<forall>ss. getAllConversations limit offset f (snd (deleteConversation cid w)) = Inr ss
            \<longrightarrow> cid \<notin> s_id ` set ss)"
proof -
  let ?w = "snd (deleteConversation cid w)"
  have cs: "conversations ?w = filter (\<lambda>c. conv_id c \<noteq> cid) (conversations w)"
    and hs: "has_schema ?w" and r: "fst (deleteConversation cid w) = Inr ()"
    using assms by (simp_all add: deleteConversation_def sql_delete_conversation_def)
  have nin: "cid \<notin> conv_id ` set (conversations ?w)" by (auto simp: cs)
  then have f: "find (\<lambda>c. conv_id c = cid) (conversations ?w) = None" by (rule find_conv_None)
  have g: "getConversation cid ?w = Inr None" "getConversationWithMessages cid ?w = Inr None"
    using hs f by (simp_all add: getConversation_def getConversationWithMessages_def)
  have m1: "foreign_keys w \<longrightarrow> messages ?w = filter (\<lambda>m. conversation_id m \<noteq> cid) (messages w)"
    and m2: "\<not> foreign_keys w \<longrightarrow> messages ?w = messages w"
    using assms by (simp_all add: deleteConversation_def sql_delete_conversation_def)
  have l: "\<forall>ss. getAllConversations limit offset f ?w = Inr ss \<longrightarrow> cid \<notin> s_id ` set ss"
    using listing_ids[of limit offset f ?w] nin by blast
  show ?thesis using r g cs m1 m2 l by auto
qed

theorem deleteConversation_cascades_witness:
  "has_schema demo_talk \<and> foreign_keys demo_talk
   \<and> length (filter (\<lambda>m. conversation_id m = ''u'') (messages demo_talk)) = 2
   \<and> getConversation ''u'' (snd (deleteConversation ''u'' demo_talk)) = Inr None
   \<and> messages (snd (deleteConversation ''u'' demo_talk)) = []
   \<and> getAllConversations 100 0 no_filters (snd (deleteConversation ''u'' demo_talk)) = Inr []
   \<and> \<not> foreign_keys (demo_talk\<lparr>foreign_keys := False\<rparr>)
   \<and> length (messages (snd (deleteConversation ''u'' (demo_talk\<lparr>foreign_keys := False\<rparr>)))) = 2"
  using deleteConversation_cascades [of demo_talk "''u''" 100 0 no_filters]
    deleteConversation_cascades [of "demo_talk\<lparr>foreign_keys := False\<rparr>" "''u''" 100 0 no_filters]
  by (simp add: demo_talk_eval deleteConversation_def sql_delete_conversation_def
      getConversation_def getAllConversations_def sql_limit_offset_def)

section \<open>Listing conversations\<close>

text \<open>
  Claim C5.  On a database with the schema, \<open>getAllConversations\<close> returns the summaries
  of a selection of the conversation rows, in descending \<open>updated_at\<close> order.  Every
  summary returned has \<open>archived = 1\<close> when \<open>filters.archived\<close> is exactly \<open>true\<close>, and
  \<open>archived = 0\<close> for every other value of it (\<open>false\<close>, undefined, anything else); when
  \<open>filters.starred\<close> is exactly \<open>true\<close> it has \<open>starred = 1\<close> as well, so the starred
  filter narrows the archived default and never lifts it.  Without a limit (a negative
  one) and without offset, the rows selected are exactly the rows that satisfy these
  conditions.
\<close>

theorem getAllConversations_order_and_filters:
  assumes "has_schema w"
  shows "\<exists>rows. getAllConversations limit offset f w = Inr (map (summarize (messages w)) rows)
      \<and> set rows \<subseteq> set (conversations w)
      \<and> sorted_wrt (\<lambda>a b. s_updated_at a \<ge> s_updated_at b) (map (summarize (messages w)) rows)
      \<and> (\<forall>s \<in> set (map (summarize (messages w)) rows).
            (f_archived f = JBool True \<longrightarrow> s_archived s = SInt 1)
          \<and> (f_archived f \<noteq> JBool True \<longrightarrow> s_archived s = SInt 0)
          \<and> (f_starred f = JBool True \<longrightarrow> s_starred s = SInt 1))
      \<and> (limit < 0 \<and> offset \<le> 0 \<longrightarrow>
            mset rows = filter_mset
              (\<lambda>c. archived c = SInt (if f_archived f = JBool True then 1 else 0)
                    \<and> (f_starred f = JBool True \<longrightarrow> starred c = SInt 1))
              (mset (conversations w)))"
proof -
  let ?sorted = "sort_key (\<lambda>c. - updated_at c) (filter (whereClause f) (conversations w))"
  let ?rows = "sql_limit_offset limit offset ?sorted"
  have r: "getAllConversations limit offset f w = Inr (map (summarize (messages w)) ?rows)"
    using assms by (simp add: getAllConversations_def)
  have sub: "set ?rows \<subseteq> set ?sorted" by (rule set_sql_limit_offset)
  then have sub': "set ?rows \<subseteq> set (conversations w)" by auto
  have "sorted_wrt (\<lambda>a b. updated_at a \<ge> updated_at b) ?rows"
    by (intro sorted_wrt_sql_limit_offset sorted_desc_sort_key)
  then have so: "sorted_wrt (\<lambda>a b. s_updated_at a \<ge> s_updated_at b) (map (summarize (messages w)) ?rows)"
    by (simp add: sorted_wrt_map summarize_fields)
  have wc: "\<forall>c \<in> set ?rows. whereClause f c" using sub by auto
  have fl: "\<forall>s \<in> set (map (summarize (messages w)) ?rows).
            (f_archived f = JBool True \<longrightarrow> s_archived s = SInt 1)
          \<and> (f_archived f \<noteq> JBool True \<longrightarrow> s_archived s = SInt 0)
          \<and> (f_starred f = JBool True \<longrightarrow> s_starred s = SInt 1)"
  proof
    fix s assume "s \<in> set (map (summarize (messages w)) ?rows)"
    then obtain c where c: "c \<in> set ?rows" and s: "s = summarize (messages w) c" by auto
    from wc c have "whereClause f c" by blast
    then show "(f_archived f = JBool True \<longrightarrow> s_archived s = SInt 1)
          \<and> (f_archived f \<noteq> JBool True \<longrightarrow> s_archived s = SInt 0)
          \<and> (f_starred f = JBool True \<longrightarrow> s_starred s = SInt 1)"
      unfolding s summarize_fields whereClause_iff by simp
  qed
  have al: "limit < 0 \<and> offset \<le> 0 \<longrightarrow>
            mset ?rows = filter_mset
              (\<lambda>c. archived c = SInt (if f_archived f = JBool True then 1 else 0)
                    \<and> (f_starred f = JBool True \<longrightarrow> starred c = SInt 1))
              (mset (conversations w))"
    by (simp add: sql_limit_offset_all whereClause_iff[abs_def])
  show ?thesis
    apply (rule exI[of _ ?rows])
    apply (intro conjI)
        apply (rule r)
       apply (rule sub')
      apply (rule so)
     apply (rule fl)
    apply (rule al)
    done
qed

theorem getAllConversations_order_and_filters_witness:
  "has_schema demo_shelf
   \<and> map archived (conversations demo_shelf) = [SInt 0, SInt 1, SInt 0]
   \<and> map starred (conversations demo_shelf) = [SInt 1, SInt 0, SInt 0]
   \<and> map_sum id (map (\<lambda>s. (s_id s, s_updated_at s))) (getAllConversations (- 1) 0 no_filters demo_shelf)
       = Inr [(''u'', 1005), (''uuu'', 1004)]
   \<and> map_sum id (map s_id)
        (getAllConversations (- 1) 0 \<lparr>f_archived = JBool True, f_starred = JUndefined\<rparr> demo_shelf)
       = Inr [''uu'']
   \<and> map_sum id (map s_id)
        (getAllConversations 100 0 \<lparr>f_archived = JBool False, f_starred = JBool True\<rparr> demo_shelf)
       = Inr [''u'']
   \<and> map_sum id (map s_id)
        (getAllConversations 100 0 \<lparr>f_archived = JUndefined, f_starred = JBool True\<rparr> demo_shelf)
       = Inr [''u'']"
  using getAllConversations_order_and_filters [of demo_shelf "- 1" 0 no_filters]
    getAllConversations_order_and_filters
      [of demo_shelf "- 1" 0 "\<lparr>f_archived = JBool True, f_starred = JUndefined\<rparr>"]
    getAllConversations_order_and_filters
      [of demo_shelf 100 0 "\<lparr>f_archived = JUndefined, f_starred = JBool True\<rparr>"]
  by (simp add: demo_shelf_eval getAllConversations_def no_filters_def whereClause_def
      sql_limit_offset_def s_id_summarize summarize_fields)

section \<open>Updating a conversation\<close>



section \<open>Renaming and the listing\<close>



section \<open>Running the migrations\<close>



section \<open>The message count\<close>

text \<open>
  Claim C1.  Start from a consistent database: the \<open>foreign_keys\<close> pragma is on, every
  message references a conversation row, and every \<open>message_count\<close> is the number of
  message rows referencing its conversation (\<open>initialize\<close> on a fresh file gives such a
  database).  Then the database is consistent after every sequence of service calls,
  whether they succeed or raise, so whenever \<open>getConversationWithMessages\<close> returns a
  conversation, its \<open>message_count\<close> is the length of its message list, which is the
  number of message rows referencing it.  Immediately after a successful
  \<open>createConversation\<close> the count is 0 and the message list is empty; and after a run of
  N successful \<open>saveMessage\<close> calls against the new conversation, \<open>getConversation\<close>
  returns \<open>message_count = N\<close> and \<open>getConversationWithMessages\<close> returns N messages.
\<close>

theorem messageCount_matches_messages:
  assumes "store_inv w"
  shows "store_inv (fold perform calls w)
     \<and> (\<forall>cid c vs. getConversationWithMessages cid (fold perform calls w) = Inr (Some (c, vs))
           \<longrightarrow> getConversation cid (fold perform calls w) = Inr (Some c)
             \<and> message_count c = int (length vs)
             \<and> length vs = length (filter (\<lambda>m. conversation_id m = cid)
                                     (messages (fold perform calls w))))
     \<and> (\<forall>cr w1. createConversation s w = (Inr cr, w1) \<longrightarrow>
           (\<exists>c. getConversation (cr_id cr) w1 = Inr (Some c) \<and> message_count c = 0
               \<and> getConversationWithMessages (cr_id cr) w1 = Inr (Some (c, [])))
         \<and> (\<forall>args ss w2. saveMessages (cr_id cr) args w1 = (Inr ss, w2) \<longrightarrow>
               (\<exists>c vs. getConversation (cr_id cr) w2 = Inr (Some c)
                   \<and> message_count c = int (length args)
                   \<and> getConversationWithMessages (cr_id cr) w2 = Inr (Some (c, vs))
                   \<and> length vs = length args)))"
proof (intro conjI allI impI)
  show "store_inv (fold perform calls w)" by (rule store_inv_run[OF assms])
next
  fix cid c vs
  assume "getConversationWithMessages cid (fold perform calls w) = Inr (Some (c, vs))"
  from count_read[OF store_inv_run[OF assms] this]
  show "getConversation cid (fold perform calls w) = Inr (Some c)"
    "message_count c = int (length vs)"
    "length vs = length (filter (\<lambda>m. conversation_id m = cid) (messages (fold perform calls w)))"
    by simp_all
next
  fix cr w1 assume cr: "createConversation s w = (Inr cr, w1)"
  have i1: "store_inv w1" using store_inv_createConversation[OF assms, of s] cr by simp
  from createConversation_success[OF cr] obtain row where
    w1: "has_schema w1" "messages w1 = messages w" "cr_id cr \<notin> conv_id ` set (conversations w)"
      "conversations w1 = conversations w @ [row]" "conv_id row = cr_id cr"
    by blast
  have ex: "cr_id cr \<in> conv_id ` set (conversations w1)" using w1(4,5) by force
  have z: "filter (\<lambda>m. conversation_id m = cr_id cr) (messages w1) = []"
    using no_refs_count[of w "cr_id cr"] assms w1(2,3) by (simp add: store_inv_def)
  from read_existing[OF w1(1) ex] obtain c vs where
    r: "getConversation (cr_id cr) w1 = Inr (Some c)"
       "getConversationWithMessages (cr_id cr) w1 = Inr (Some (c, vs))" by blast
  from count_read[OF i1 r(2)] z have "message_count c = 0" "vs = []" by simp_all
  with r show "\<exists>c. getConversation (cr_id cr) w1 = Inr (Some c) \<and> message_count c = 0
               \<and> getConversationWithMessages (cr_id cr) w1 = Inr (Some (c, []))"
    by blast
  fix args ss w2 assume sm: "saveMessages (cr_id cr) args w1 = (Inr ss, w2)"
  have i2: "store_inv w2" using store_inv_saveMessages[OF i1, of "cr_id cr" args] sm by simp
  from saveMessages_success[OF sm] have
    w2: "has_schema w2 = has_schema w1"
        "map conv_id (conversations w2) = map conv_id (conversations w1)"
        "length (filter (\<lambda>m. conversation_id m = cr_id cr) (messages w2))
           = length (filter (\<lambda>m. conversation_id m = cr_id cr) (messages w1)) + length args"
    by simp_all
  from w2(2) have "set (map conv_id (conversations w2)) = set (map conv_id (conversations w1))"
    by simp
  then have ex2: "cr_id cr \<in> conv_id ` set (conversations w2)" using ex by simp
  have hs2: "has_schema w2" using w2(1) w1(1) by simp
  from read_existing[OF hs2 ex2] obtain c2 vs2 where
    r2: "getConversation (cr_id cr) w2 = Inr (Some c2)"
        "getConversationWithMessages (cr_id cr) w2 = Inr (Some (c2, vs2))" by blast
  from count_read[OF i2 r2(2)] w2(3) z
  have "message_count c2 = int (length args)" "length vs2 = length args" by simp_all
  with r2 show "\<exists>c vs. getConversation (cr_id cr) w2 = Inr (Some c)
                   \<and> message_count c = int (length args)
                   \<and> getConversationWithMessages (cr_id cr) w2 = Inr (Some (c, vs))
                   \<and> length vs = length args"
    by blast
qed

theorem messageCount_matches_messages_witness:
  "store_inv demo_db
   \<and> createConversation None demo_db = (Inr \<lparr>cr_id = ''u'', cr_created_at = 1002\<rparr>, demo_chat)
   \<and> saveMessages ''u'' [(js ''user'', js ''What is this?'', False),
                          (js ''assistant'', js ''A screenshot.'', False)] demo_chat
       = (Inr [\<lparr>sv_id = ''uu'', sv_timestamp = 1003\<rparr>, \<lparr>sv_id = ''uuu'', sv_timestamp = 1005\<rparr>],
          demo_talk)
   \<and> map_sum id (map_option (\<lambda>(c, vs). (message_count c, length vs)))
         (getConversationWithMessages ''u'' demo_talk) = Inr (Some (2, 2))
   \<and> map_sum id (map_option (\<lambda>(c, vs). (message_count c, length vs)))
         (getConversationWithMessages ''u''
            (fold perform [CreateConversation None,
                           SaveMessage ''u'' (js ''user'') (js ''What is this?'') False,
                           SaveMessage ''zz'' (js ''user'') (js ''lost'') False,
                           SaveMessage ''u'' (js ''assistant'') (js ''A screenshot.'') False]
               demo_db)) = Inr (Some (2, 2))"
  using messageCount_matches_messages [where w = demo_db and s = None
      and calls = "[CreateConversation None,
                    SaveMessage ''u'' (js ''user'') (js ''What is this?'') False,
                    SaveMessage ''zz'' (js ''user'') (js ''lost'') False,
                    SaveMessage ''u'' (js ''assistant'') (js ''A screenshot.'') False]"]
  by (simp add: store_inv_def refs_ok_def count_ok_def demo_db_eval demo_chat_eval demo_talk_eval
      createConversation_closed saveMessage_closed truthy_def demo_uuid_def demo_clock_def Let_def
      getConversationWithMessages_def getConversation_def)

section \<open>Saving a complete conversation\<close>

text \<open>
  Claim C9.  Take a consistent database with the schema, identifiers from
  \<open>randomUUID\<close> that are new (the next one is not a conversation id, the later ones are
  not message ids, and no two of them are equal), and a clock that does not go back.
  Then \<open>saveCompleteConversation\<close> returns normally, adds exactly one conversation row
  (the one whose id it returns), and \<open>getConversationWithMessages\<close> on that id gives
  \<open>message_count = 2N\<close> and exactly \<open>2N\<close> messages for the N items: for each item, in
  list order, a user message with its prompt (never an error) followed by an assistant
  message with its answer and its error flag.
\<close>

theorem saveCompleteConversation_alternates:
  assumes hs: "has_schema w" and inv: "store_inv w"
    and fresh_c: "uuid_src w (uuid_pos w) \<notin> conv_id ` set (conversations w)"
    and fresh_m: "\<forall>n > uuid_pos w. uuid_src w n \<notin> msg_id ` set (messages w)"
    and inj: "inj_on (uuid_src w) {uuid_pos w..}"
    and mono: "\<forall>i j. clock_pos w \<le> i \<and> i \<le> j \<longrightarrow> clock w i \<le> clock w j"
  shows "\<exists>cr w' c vs. saveCompleteConversation s items w = (Inr cr, w')
      \<and> map conv_id (conversations w') = map conv_id (conversations w) @ [cr_id cr]
      \<and> getConversationWithMessages (cr_id cr) w' = Inr (Some (c, vs))
      \<and> message_count c = int (2 * length items)
      \<and> length vs = 2 * length items
      \<and> map (\<lambda>v. (v_role v, v_content v, v_error v)) vs
          = concat (map (\<lambda>it. [(js ''user'', prompt it, False),
                                 (js ''assistant'', answer it, item_error it)]) items)"
proof -
  let ?s = "if truthy s then s else None"
  let ?cid = "uuid_src w (uuid_pos w)"
  obtain cr w1 where cr: "createConversation ?s w = (Inr cr, w1)" and id: "cr_id cr = ?cid"
    and w1: "has_schema w1" "messages w1 = messages w"
      "map conv_id (conversations w1) = map conv_id (conversations w) @ [?cid]"
      "uuid_src w1 = uuid_src w" "uuid_pos w1 = Suc (uuid_pos w)"
      "clock w1 = clock w" "clock_pos w1 = Suc (clock_pos w)"
    using hs fresh_c by (simp add: createConversation_closed Let_def)
  have x1: "?cid \<in> conv_id ` set (conversations w1)"
    using arg_cong[OF w1(3), of set] by simp
  have f1: "\<forall>n \<ge> uuid_pos w1. uuid_src w1 n \<notin> msg_id ` set (messages w1)"
    using fresh_m by (simp add: w1 Suc_le_eq)
  have i1: "inj_on (uuid_src w1) {uuid_pos w1..}"
    unfolding w1 by (rule inj_on_subset[OF inj]) auto
  have m1: "\<forall>i j. clock_pos w1 \<le> i \<and> i \<le> j \<longrightarrow> clock w1 i \<le> clock w1 j"
    using mono by (simp add: w1)
  from saveItems_appends[OF w1(1) x1 f1 i1 m1, of items] obtain w' new where
    r: "saveItems ?cid items w1 = (Inr (), w')"
    and ms: "messages w' = messages w @ new"
    and sh: "map (\<lambda>m. (role m, content m, error m)) new
          = concat (map (\<lambda>it. [(js ''user'', prompt it, 0),
                                 (js ''assistant'', answer it, if item_error it then 1 else 0)])
                      items)"
    and ci: "\<forall>m \<in> set new. conversation_id m = ?cid"
    and so: "sorted (map timestamp new)"
    and h': "has_schema w'"
    and c': "map conv_id (conversations w') = map conv_id (conversations w1)"
    unfolding w1(2) by blast
  have run: "saveCompleteConversation s items w = (Inr cr, w')"
    using cr r by (simp add: saveCompleteConversation_def id)
  have ids: "map conv_id (conversations w') = map conv_id (conversations w) @ [cr_id cr]"
    by (simp add: c' w1(3) id)
  have x': "cr_id cr \<in> conv_id ` set (conversations w')"
    using arg_cong[OF ids, of set] by simp
  from read_existing[OF h' x'] obtain c vs where
    g: "getConversation (cr_id cr) w' = Inr (Some c)"
    and gm: "getConversationWithMessages (cr_id cr) w' = Inr (Some (c, vs))" by blast
  have inv': "store_inv w'"
    using store_inv_saveCompleteConversation[OF inv, of s items] run by simp
  from count_read[OF inv' gm] have cnt: "message_count c = int (length vs)" by simp
  have old: "filter (\<lambda>m. conversation_id m = ?cid) (messages w) = []"
    using no_refs_count[of w ?cid] inv fresh_c by (simp add: store_inv_def)
  have "filter (\<lambda>m. conversation_id m = ?cid) (messages w') = new"
    using filter_all[OF ci] by (simp add: ms old)
  then have "sort_key timestamp (filter (\<lambda>m. conversation_id m = cr_id cr) (messages w')) = new"
    using sort_key_id_if_sorted[OF so] by (simp add: id)
  with g gm have vs: "vs = map normalize new"
    by (simp add: getConversationWithMessages_def)
  have "map (\<lambda>v. (v_role v, v_content v, v_error v)) vs
      = map (\<lambda>(r, c, e). (r, c, e = (1::int))) (map (\<lambda>m. (role m, content m, error m)) new)"
    by (simp add: vs normalize_def comp_def)
  also have "\<dots> = concat (map (\<lambda>it. [(js ''user'', prompt it, False),
                                 (js ''assistant'', answer it, item_error it)]) items)"
    unfolding sh by (simp add: map_concat comp_def flag_is_one)
  finally have shape: "map (\<lambda>v. (v_role v, v_content v, v_error v)) vs
      = concat (map (\<lambda>it. [(js ''user'', prompt it, False),
                                 (js ''assistant'', answer it, item_error it)]) items)" .
  have len: "length vs = 2 * length items"
    using arg_cong[OF shape, of length] by (simp add: length_concat_pairs)
  show ?thesis
    apply (rule exI[of _ cr], rule exI[of _ w'], rule exI[of _ c], rule exI[of _ vs])
    apply (intro conjI)
         apply (rule run)
        apply (rule ids)
       apply (rule gm)
      apply (simp add: cnt len)
     apply (rule len)
    apply (rule shape)
    done
qed

theorem saveCompleteConversation_alternates_witness:
  "has_schema demo_db \<and> store_inv demo_db
   \<and> inj_on (uuid_src demo_db) {uuid_pos demo_db..}
   \<and> mono (clock demo_db)
   \<and> length demo_items = 2
   \<and> map_sum id (map_option (\<lambda>(c, vs). (message_count c, map v_role vs, map v_content vs, map v_error vs)))
        (getConversationWithMessages ''u'' (snd (saveCompleteConversation None demo_items demo_db)))
       = Inr (Some (4, [js ''user'', js ''assistant'', js ''user'', js ''assistant''],
                       [js ''p1'', js ''a1'', js ''p2'', js ''a2''],
                       [False, False, False, True]))"
proof -
  have hs: "has_schema demo_db" by (simp add: demo_db_eval)
  have inv: "store_inv demo_db"
    by (simp add: store_inv_def refs_ok_def count_ok_def demo_db_eval)
  have fc: "uuid_src demo_db (uuid_pos demo_db) \<notin> conv_id ` set (conversations demo_db)"
    by (simp add: demo_db_eval)
  have fm: "\<forall>n > uuid_pos demo_db. uuid_src demo_db n \<notin> msg_id ` set (messages demo_db)"
    by (simp add: demo_db_eval)
  have inj: "inj_on (uuid_src demo_db) {uuid_pos demo_db..}"
    by (simp add: demo_db_eval inj_on_def demo_uuid_def)
  have mn: "mono (clock demo_db)"
    by (simp add: demo_db_eval mono_def demo_clock_def)
  have mono: "\<forall>i j. clock_pos demo_db \<le> i \<and> i \<le> j \<longrightarrow> clock demo_db i \<le> clock demo_db j"
    using mn by (simp add: mono_def)
  have run: "map_sum id (map_option (\<lambda>(c, vs). (message_count c, map v_role vs, map v_content vs, map v_error vs)))
        (getConversationWithMessages ''u'' (snd (saveCompleteConversation None demo_items demo_db)))
       = Inr (Some (4, [js ''user'', js ''assistant'', js ''user'', js ''assistant''],
                       [js ''p1'', js ''a1'', js ''p2'', js ''a2''],
                       [False, False, False, True]))"
    by (simp add: demo_db_eval demo_items_def saveCompleteConversation_def createConversation_closed
        saveMessage_closed truthy_def demo_uuid_def demo_clock_def Let_def
        getConversationWithMessages_def getConversation_def normalize_def js_def)
  show ?thesis
    using saveCompleteConversation_alternates [OF hs inv fc fm inj mono, of None demo_items]
      hs inv inj mn run
    by (simp add: demo_items_def)
qed

end
